theory Spec2Isabelle
  imports Complex_Main "HOL-Library.List_Lexorder"
begin

section \<open>Python strings and numbers\<close>

text \<open>
  A Python \<^verbatim>\<open>str\<close> is a sequence of code points. The model covers the code points
  U+0000 .. U+00FF and the three code points that the case mappings reach from them:
  U+0178 (the upper case of U+00FF), U+039C (the upper case of U+00B5) and U+03BC (the
  lower case of U+039C). This set is closed under \<^verbatim>\<open>str.lower\<close>, \<^verbatim>\<open>str.upper\<close> and
  \<^verbatim>\<open>str.capitalize\<close>. A \<open>character\<close> is ONE Python character (not a byte of a UTF-8
  encoding), \<^term>\<open>ord c\<close> is its code point, and \<open>lit\<close> reads a string literal of the
  source. On this set the character classes of \<^verbatim>\<open>re\<close> and the methods of \<^verbatim>\<open>str\<close> are
  written out from the Unicode character database. Python floats are modelled by exact
  reals; the one float effect that is kept is the overflow of \<^verbatim>\<open>2 ** entropy\<close>.
\<close>

datatype character = Latin1 char | U_0178 | U_039C | U_03BC

type_synonym str = "character list"

abbreviation lit :: "string \<Rightarrow> str" where
  "lit s \<equiv> map Latin1 s"

datatype py_error = ValueError | OverflowError | KeyError

text \<open>A raised exception is the left summand; \<open>then_do\<close> runs the rest of a function
  body after a call that may raise.\<close>

definition then_do :: "py_error + 'a \<Rightarrow> ('a \<Rightarrow> py_error + 'b) \<Rightarrow> py_error + 'b" where
  "then_do m f = (case m of Inl e \<Rightarrow> Inl e | Inr x \<Rightarrow> f x)"

definition ord :: "character \<Rightarrow> nat" where
  "ord c = (case c of Latin1 a \<Rightarrow> of_char a | U_0178 \<Rightarrow> 376 | U_039C \<Rightarrow> 924 | U_03BC \<Rightarrow> 956)"

text \<open>Python compares characters, and so strings, by code point.\<close>

instantiation character :: linorder
begin

definition less_eq_character :: "character \<Rightarrow> character \<Rightarrow> bool" where
  "less_eq_character c d = (ord c \<le> ord d)"

definition less_character :: "character \<Rightarrow> character \<Rightarrow> bool" where
  "less_character c d = (ord c < ord d)"

instance
proof
  fix x y z :: character
  show "(x < y) = (x \<le> y \<and> \<not> y \<le> x)"
    by (auto simp: less_eq_character_def less_character_def)
  show "x \<le> x"
    by (simp add: less_eq_character_def)
  show "x \<le> y \<Longrightarrow> y \<le> z \<Longrightarrow> x \<le> z"
    by (simp add: less_eq_character_def)
  show "x \<le> y \<or> y \<le> x"
    by (auto simp: less_eq_character_def)
  show "x = y" if "x \<le> y" and "y \<le> x"
  proof -
    have bound: "of_char a < (256 :: nat)" for a :: char
      by simp
    have outside:
      "of_char a \<noteq> (376 :: nat) \<and> of_char a \<noteq> (924 :: nat) \<and> of_char a \<noteq> (956 :: nat)"
      for a :: char
      using bound [of a] by linarith
    from that have "ord x = ord y"
      by (simp add: less_eq_character_def)
    then show ?thesis
      using outside by (cases x; cases y) (auto simp: ord_def)
  qed
qed

end

definition between :: "nat \<Rightarrow> nat \<Rightarrow> nat \<Rightarrow> bool" where
  "between lo hi n = (lo \<le> n \<and> n \<le> hi)"

text \<open>The regular-expression classes \<^verbatim>\<open>[a-z]\<close>, \<^verbatim>\<open>[A-Z]\<close>, \<^verbatim>\<open>\d\<close> (decimal digits,
  category Nd) and the fixed punctuation class of the analyzer.\<close>

definition re_lower :: "character \<Rightarrow> bool" where
  "re_lower c = between 97 122 (ord c)"

definition re_upper :: "character \<Rightarrow> bool" where
  "re_upper c = between 65 90 (ord c)"

definition re_digit :: "character \<Rightarrow> bool" where
  "re_digit c = between 48 57 (ord c)"

definition special_chars :: str where
  "special_chars = lit (''!@#$%^&*(),.?'' @ [CHR 0x22] @ '':{}|<>'')"

definition re_special :: "character \<Rightarrow> bool" where
  "re_special c = (c \<in> set special_chars)"

text \<open>\<^verbatim>\<open>str.isdigit\<close> also accepts the superscript digits U+00B2, U+00B3, U+00B9, which
  are not decimal digits; \<^verbatim>\<open>str.isalpha\<close> accepts the letters among the code points of
  the model; \<^verbatim>\<open>str.isspace\<close>, \<^verbatim>\<open>str.strip\<close> and the class \<^verbatim>\<open>\s\<close> share one whitespace
  predicate.\<close>

definition isdigit_char :: "character \<Rightarrow> bool" where
  "isdigit_char c = (between 48 57 (ord c) \<or> ord c \<in> {178, 179, 185})"

definition isalpha_char :: "character \<Rightarrow> bool" where
  "isalpha_char c =
     (between 65 90 (ord c) \<or> between 97 122 (ord c) \<or> ord c \<in> {170, 181, 186}
      \<or> between 192 214 (ord c) \<or> between 216 246 (ord c) \<or> between 248 255 (ord c)
      \<or> ord c \<in> {376, 924, 956})"

definition isspace_char :: "character \<Rightarrow> bool" where
  "isspace_char c = (between 9 13 (ord c) \<or> between 28 32 (ord c) \<or> ord c \<in> {133, 160})"

definition isdigit :: "str \<Rightarrow> bool" where
  "isdigit s = (s \<noteq> [] \<and> list_all isdigit_char s)"

definition isalpha :: "str \<Rightarrow> bool" where
  "isalpha s = (s \<noteq> [] \<and> list_all isalpha_char s)"

definition isspace :: "str \<Rightarrow> bool" where
  "isspace s = (s \<noteq> [] \<and> list_all isspace_char s)"

definition strip :: "str \<Rightarrow> str" where
  "strip s = rev (dropWhile isspace_char (rev (dropWhile isspace_char s)))"

text \<open>Case mappings, one character at a time (no character of the model has a
  context-dependent mapping). Lower-casing maps U+0178 to U+00FF and U+039C to U+03BC.
  Upper-casing maps U+00DF to the two characters SS, U+00FF to U+0178, and U+00B5 and
  U+03BC to U+039C. Title-casing, which \<^verbatim>\<open>str.capitalize\<close> applies to the first character,
  differs from upper-casing at U+00DF only.\<close>

definition lower_char :: "character \<Rightarrow> character" where
  "lower_char c =
     (if between 65 90 (ord c) \<or> (between 192 222 (ord c) \<and> ord c \<noteq> 215)
      then Latin1 (char_of (ord c + 32))
      else if c = U_0178 then Latin1 (CHR 0xFF)
      else if c = U_039C then U_03BC else c)"

definition lower :: "str \<Rightarrow> str" where
  "lower s = map lower_char s"

definition upper_char :: "character \<Rightarrow> str" where
  "upper_char c =
     (if between 97 122 (ord c) \<or> (between 224 254 (ord c) \<and> ord c \<noteq> 247)
      then [Latin1 (char_of (ord c - 32))]
      else if ord c = 223 then lit ''SS''
      else if ord c = 255 then [U_0178]
      else if ord c = 181 \<or> c = U_03BC then [U_039C] else [c])"

definition upper :: "str \<Rightarrow> str" where
  "upper s = concat (map upper_char s)"

definition title_char :: "character \<Rightarrow> str" where
  "title_char c = (if ord c = 223 then lit ''Ss'' else upper_char c)"

definition capitalize :: "str \<Rightarrow> str" where
  "capitalize s = (case s of [] \<Rightarrow> [] | c # cs \<Rightarrow> title_char c @ lower cs)"

text \<open>\<^verbatim>\<open>pat in s\<close> on strings: \<open>pat\<close> occurs as a contiguous substring.\<close>

definition startswith :: "str \<Rightarrow> str \<Rightarrow> bool" where
  "startswith s pat = (take (length pat) s = pat)"

fun str_in :: "str \<Rightarrow> str \<Rightarrow> bool" where
  "str_in pat [] = (pat = [])"
| "str_in pat (c # cs) = (startswith (c # cs) pat \<or> str_in pat cs)"

text \<open>\<^verbatim>\<open>s[i:j]\<close> for \<open>0 \<le> i \<le> j\<close>, and \<^verbatim>\<open>s[-2:]\<close>.\<close>

definition slice :: "str \<Rightarrow> nat \<Rightarrow> nat \<Rightarrow> str" where
  "slice s i j = take (j - i) (drop i s)"

definition last2 :: "str \<Rightarrow> str" where
  "last2 s = drop (length s - 2) s"

text \<open>\<^verbatim>\<open>str(n)\<close> and \<^verbatim>\<open>f'{n}'\<close> for a non-negative integer.\<close>

fun str_nat :: "nat \<Rightarrow> str" where
  "str_nat n = (if n < 10 then [lit ''0123456789'' ! n]
                else str_nat (n div 10) @ [lit ''0123456789'' ! (n mod 10)])"

declare str_nat.simps [simp del]

text \<open>\<^verbatim>\<open>int(c)\<close> for a one-character string: only a decimal digit parses.\<close>

definition int_char :: "character \<Rightarrow> py_error + int" where
  "int_char c = (if re_digit c then Inr (int (ord c) - 48) else Inl ValueError)"

text \<open>\<^verbatim>\<open>round(x)\<close> rounds half to even; \<^verbatim>\<open>round(x, 2)\<close> does so at two decimals.\<close>

definition py_round :: "real \<Rightarrow> int" where
  "py_round x =
     (let f = \<lfloor>x\<rfloor>; d = x - of_int f
      in if d < 1 / 2 then f else if 1 / 2 < d then f + 1
         else if even f then f else f + 1)"

definition round2 :: "real \<Rightarrow> real" where
  "round2 x = of_int (py_round (x * 100)) / 100"

section \<open>Configuration (pssw\_config.py)\<close>

definition MAX_PASSWORD_LENGTH :: nat where
  "MAX_PASSWORD_LENGTH = 100"

definition MAX_WORDLIST_SIZE :: nat where
  "MAX_WORDLIST_SIZE = 10000"

definition COMMON_PATTERNS :: "str list" where
  "COMMON_PATTERNS =
     [lit ''password'', lit ''123456'', lit ''qwerty'', lit ''abc123'', lit ''letmein'',
      lit ''admin'', lit ''welcome'', lit ''monkey'', lit ''dragon'', lit ''master'']"

text \<open>The dictionary keeps its insertion order, so it is an association list.\<close>

definition LEET_REPLACEMENTS :: "(str \<times> str list) list" where
  "LEET_REPLACEMENTS =
     [(lit ''a'', [lit ''@'', lit ''4'']), (lit ''e'', [lit ''3'']), (lit ''i'', [lit ''1'', lit ''!'']), (lit ''o'', [lit ''0'']),
      (lit ''s'', [lit ''$'', lit ''5'']), (lit ''t'', [lit ''7'']), (lit ''l'', [lit ''1'']), (lit ''g'', [lit ''9''])]"

section \<open>The password analyzer (pssw\_analyzer.py)\<close>

text \<open>The readings the engines take from outside their arguments: the clock
  (\<^verbatim>\<open>datetime.now()\<close>: its year, and its text in the format \<^verbatim>\<open>%Y-%m-%d %H:%M:%S\<close>),
  and the optional third-party estimator. \<open>zxcvbn = None\<close> is the failed import; a
  present estimator returns \<open>None\<close> for a password where the library raises.\<close>

record zxcvbn_result =
  score :: int
  crack_times :: "(str \<times> str) list"
  warning :: str
  suggestions :: "str list"

record environment =
  now_year :: nat
  now_text :: str
  zxcvbn :: "(str \<Rightarrow> zxcvbn_result option) option"

record char_analysis =
  has_lowercase :: bool
  has_uppercase :: bool
  has_digits :: bool
  has_special :: bool
  lowercase_count :: nat
  uppercase_count :: nat
  digit_count :: nat
  special_count :: nat
  unique_chars :: nat
  char_diversity :: real
  character_types :: nat

record pattern_analysis =
  has_common_patterns :: "str list"
  has_keyboard_patterns :: "str list"
  has_repeated_chars :: "str list"
  has_sequential_chars :: "str list"
  common_substitutions :: "str list"
  contains_dictionary_words :: "str list"

text \<open>The analysis dictionary. The two nested dictionaries are empty (\<open>None\<close>) in the
  record for the empty password; reading a key of an empty dictionary is a KeyError.\<close>

record analysis =
  password_field :: str
  length_field :: nat
  strength_score :: int
  strength_label :: str
  strength_color :: str
  entropy :: real
  time_to_crack :: str
  character_analysis :: "char_analysis option"
  pattern_analysis :: "pattern_analysis option"
  recommendations :: "str list"
  zxcvbn_analysis :: "zxcvbn_result option"
  analysis_timestamp :: str

definition empty_analysis :: "environment \<Rightarrow> analysis" where
  "empty_analysis env =
     \<lparr> password_field = [], length_field = 0, strength_score = 0,
       strength_label = lit ''Invalid'', strength_color = lit ''secondary'', entropy = 0,
       time_to_crack = lit ''N/A'', character_analysis = None, pattern_analysis = None,
       recommendations = [lit ''Please enter a password to analyze''],
       zxcvbn_analysis = None, analysis_timestamp = now_text env \<rparr>"

text \<open>Reading a key of a nested dictionary.\<close>

definition subdict :: "'a option \<Rightarrow> py_error + 'a" where
  "subdict d = (case d of None \<Rightarrow> Inl KeyError | Some x \<Rightarrow> Inr x)"

definition bool_count :: "bool \<Rightarrow> nat" where
  "bool_count b = (if b then 1 else 0)"

definition analyze_characters :: "str \<Rightarrow> char_analysis" where
  "analyze_characters password =
     (let a = \<lparr> has_lowercase = list_ex re_lower password,
                 has_uppercase = list_ex re_upper password,
                 has_digits = list_ex re_digit password,
                 has_special = list_ex re_special password,
                 lowercase_count = length (filter re_lower password),
                 uppercase_count = length (filter re_upper password),
                 digit_count = length (filter re_digit password),
                 special_count = length (filter re_special password),
                 unique_chars = length (remdups password),
                 char_diversity =
                   (if password \<noteq> [] then real (length (remdups password)) / real (length password)
                    else 0),
                 character_types = 0 \<rparr>
      in a \<lparr> character_types :=
               bool_count (has_lowercase a) + bool_count (has_uppercase a)
               + bool_count (has_digits a) + bool_count (has_special a) \<rparr>)"

definition check_common_patterns :: "str \<Rightarrow> str list" where
  "check_common_patterns password =
     (let password_lower = lower password
      in filter (\<lambda>pattern. str_in pattern password_lower) COMMON_PATTERNS)"

definition keyboard_patterns :: "str list" where
  "keyboard_patterns =
     [lit ''qwerty'', lit ''asdf'', lit ''zxcv'', lit ''1234'', lit ''4567'', lit ''7890'',
      lit ''qwertyuiop'', lit ''asdfghjkl'', lit ''zxcvbnm'']"

definition check_keyboard_patterns :: "str \<Rightarrow> str list" where
  "check_keyboard_patterns password =
     (let password_lower = lower password
      in filter (\<lambda>pattern. str_in pattern password_lower \<or> str_in (rev pattern) password_lower)
           keyboard_patterns)"

text \<open>The \<^verbatim>\<open>while\<close> loop of the repeated-character scan, with its index \<open>i\<close> and the list
  built so far. The comparison \<^verbatim>\<open>i < len(password) - 2\<close> is on Python integers.\<close>

function repeated_loop :: "str \<Rightarrow> nat \<Rightarrow> str list \<Rightarrow> str list" where
  "repeated_loop password i repeated =
     (if int i < int (length password) - 2
      then (if password ! i = password ! (i + 1) \<and> password ! (i + 1) = password ! (i + 2)
            then repeated_loop password (i + 3) (repeated @ [replicate 3 (password ! i)])
            else repeated_loop password (i + 1) repeated)
      else repeated)"
  by pat_completeness auto
termination
  by (relation "measure (\<lambda>(password, i, repeated). length password - i)") auto

declare repeated_loop.simps [simp del]

definition check_repeated_characters :: "str \<Rightarrow> str list" where
  "check_repeated_characters password = repeated_loop password 0 []"

text \<open>The numeric test of one window. \<^verbatim>\<open>and\<close> evaluates left to right and stops at the
  first false operand; each comparison evaluates its left side first. The window has
  three characters, since \<open>i\<close> ranges below \<open>len(password) - 2\<close>.\<close>

definition numeric_window :: "str \<Rightarrow> nat \<Rightarrow> py_error + bool" where
  "numeric_window password i =
     (if \<not> isdigit (slice password i (i + 3)) then Inr False
      else then_do (int_char (password ! (i + 1))) (\<lambda>b.
           then_do (int_char (password ! i)) (\<lambda>a.
           if b \<noteq> a + 1 then Inr False
           else then_do (int_char (password ! (i + 2))) (\<lambda>c.
                then_do (int_char (password ! (i + 1))) (\<lambda>b'.
                Inr (c = b' + 1))))))"

fun numeric_loop :: "str \<Rightarrow> nat list \<Rightarrow> str list \<Rightarrow> py_error + str list" where
  "numeric_loop password [] sequential = Inr sequential"
| "numeric_loop password (i # rest) sequential =
     (case numeric_window password i of
        Inl e \<Rightarrow> Inl e
      | Inr hit \<Rightarrow> numeric_loop password rest
                    (if hit then sequential @ [slice password i (i + 3)] else sequential))"

definition alphabetic_window :: "str \<Rightarrow> nat \<Rightarrow> bool" where
  "alphabetic_window password i =
     (let substr = lower (slice password i (i + 3))
      in isalpha substr \<and> ord (substr ! 1) = ord (substr ! 0) + 1
         \<and> ord (substr ! 2) = ord (substr ! 1) + 1)"

fun alphabetic_loop :: "str \<Rightarrow> nat list \<Rightarrow> str list \<Rightarrow> str list" where
  "alphabetic_loop password [] sequential = sequential"
| "alphabetic_loop password (i # rest) sequential =
     alphabetic_loop password rest
       (if alphabetic_window password i then sequential @ [slice password i (i + 3)]
        else sequential)"

text \<open>\<^verbatim>\<open>range(len(password) - 2)\<close> is empty for a password shorter than three.\<close>

definition check_sequential_characters :: "str \<Rightarrow> py_error + str list" where
  "check_sequential_characters password =
     (case numeric_loop password [0 ..< length password - 2] [] of
        Inl e \<Rightarrow> Inl e
      | Inr sequential \<Rightarrow>
          Inr (alphabetic_loop password [0 ..< length password - 2] sequential))"

definition check_leet_speak :: "str \<Rightarrow> str list" where
  "check_leet_speak password =
     concat (map (\<lambda>(char, replacements).
                concat (map (\<lambda>replacement.
                          if str_in replacement password
                          then [replacement @ lit '' -> '' @ char] else [])
                        replacements))
              LEET_REPLACEMENTS)"

definition common_words :: "str list" where
  "common_words =
     [lit ''password'', lit ''admin'', lit ''user'', lit ''login'', lit ''welcome'',
      lit ''secret'', lit ''master'', lit ''super'', lit ''root'', lit ''test'']"

definition check_dictionary_words :: "str \<Rightarrow> str list" where
  "check_dictionary_words password =
     (let password_lower = lower password
      in filter (\<lambda>word. str_in word password_lower) common_words)"

text \<open>The dictionary literal evaluates its values in order; only the sequential check
  can raise, and nothing before it has an effect.\<close>

definition analyze_patterns :: "str \<Rightarrow> py_error + pattern_analysis" where
  "analyze_patterns password =
     (case check_sequential_characters password of
        Inl e \<Rightarrow> Inl e
      | Inr sequential \<Rightarrow>
          Inr \<lparr> has_common_patterns = check_common_patterns password,
                has_keyboard_patterns = check_keyboard_patterns password,
                has_repeated_chars = check_repeated_characters password,
                has_sequential_chars = sequential,
                common_substitutions = check_leet_speak password,
                contains_dictionary_words = check_dictionary_words password \<rparr>)"

definition charset_size :: "str \<Rightarrow> nat" where
  "charset_size password =
     (if list_ex re_lower password then 26 else 0)
     + (if list_ex re_upper password then 26 else 0)
     + (if list_ex re_digit password then 10 else 0)
     + (if list_ex re_special password then 32 else 0)"

definition calculate_entropy :: "str \<Rightarrow> real" where
  "calculate_entropy password =
     (if password = [] then 0
      else round2 (if charset_size password > 0
                   then real (length password) * log 2 (real (charset_size password))
                   else 0))"

definition length_points :: "nat \<Rightarrow> real" where
  "length_points n = (if n \<ge> 12 then 30 else if n \<ge> 8 then 20 else if n \<ge> 6 then 10
                      else if n \<ge> 4 then 5 else 0)"

definition entropy_points :: "real \<Rightarrow> real" where
  "entropy_points e = (if e \<ge> 60 then 20 else if e \<ge> 40 then 15 else if e \<ge> 25 then 10
                       else if e \<ge> 15 then 5 else 0)"

text \<open>The sum before rounding and clamping, in the order the source adds its terms.\<close>

definition raw_score :: "str \<Rightarrow> char_analysis \<Rightarrow> pattern_analysis \<Rightarrow> real \<Rightarrow> real" where
  "raw_score password ca patterns e =
     length_points (length password)
     + real (character_types ca) * 6.25
     + char_diversity ca * 15
     + entropy_points e
     - (if has_common_patterns patterns \<noteq> [] then 10 else 0)
     - (if has_keyboard_patterns patterns \<noteq> [] then 5 else 0)
     - (if has_repeated_chars patterns \<noteq> [] then 5 else 0)
     - (if has_sequential_chars patterns \<noteq> [] then 5 else 0)"

definition calculate_strength_score :: "str \<Rightarrow> analysis \<Rightarrow> py_error + int" where
  "calculate_strength_score password a =
     then_do (subdict (character_analysis a)) (\<lambda>ca.
     then_do (subdict (pattern_analysis a)) (\<lambda>patterns.
     Inr (max 0 (min 100 (py_round (raw_score password ca patterns (entropy a)))))))"

definition get_strength_label :: "int \<Rightarrow> str \<times> str" where
  "get_strength_label s =
     (if s \<ge> 80 then (lit ''Very Strong'', lit ''success'')
      else if s \<ge> 60 then (lit ''Strong'', lit ''info'')
      else if s \<ge> 40 then (lit ''Moderate'', lit ''warning'')
      else if s \<ge> 20 then (lit ''Weak'', lit ''danger'')
      else (lit ''Very Weak'', lit ''danger''))"

text \<open>\<^verbatim>\<open>2 ** entropy\<close> is a float power: it raises OverflowError when the result exceeds
  the largest double, which for an exponent rounded to two decimals is exactly
  \<open>entropy \<ge> 1024\<close>. \<^verbatim>\<open>int(x)\<close> truncates, and \<open>x\<close> is positive here.\<close>

definition estimate_crack_time :: "real \<Rightarrow> py_error + str" where
  "estimate_crack_time e =
     (if e \<le> 0 then Inr (lit ''Instantly'')
      else if e \<ge> 1024 then Inl OverflowError
      else
        let attempts_per_second = (1000000000 :: real);
            possible_combinations = 2 powr e;
            seconds = possible_combinations / (2 * attempts_per_second)
        in if seconds < 1 then Inr (lit ''Less than a second'')
           else if seconds < 60 then Inr (str_nat (nat \<lfloor>seconds\<rfloor>) @ lit '' seconds'')
           else if seconds < 3600 then Inr (str_nat (nat \<lfloor>seconds / 60\<rfloor>) @ lit '' minutes'')
           else if seconds < 86400 then Inr (str_nat (nat \<lfloor>seconds / 3600\<rfloor>) @ lit '' hours'')
           else if seconds < 2592000 then Inr (str_nat (nat \<lfloor>seconds / 86400\<rfloor>) @ lit '' days'')
           else if seconds < 31536000
             then Inr (str_nat (nat \<lfloor>seconds / 2592000\<rfloor>) @ lit '' months'')
           else let years = nat \<lfloor>seconds / 31536000\<rfloor>
                in if years > 1000000 then Inr (lit ''Millions of years'')
                   else Inr (str_nat years @ lit '' years''))"

definition general_tips :: "str list" where
  "general_tips =
     [lit ''Consider using a passphrase instead of a password'',
      lit ''Use a password manager to generate strong passwords'',
      lit ''Enable two-factor authentication where possible'']"

definition generate_recommendations :: "str \<Rightarrow> analysis \<Rightarrow> py_error + str list" where
  "generate_recommendations password a =
     then_do (subdict (character_analysis a)) (\<lambda>ca.
     then_do (subdict (pattern_analysis a)) (\<lambda>pa.
      let r = [];
          r = (if length_field a < 8 then r @ [lit ''Use at least 8 characters (12+ recommended)'']
               else if length_field a < 12
                 then r @ [lit ''Consider using 12 or more characters for better security'']
               else r);
          r = (if \<not> has_lowercase ca then r @ [lit ''Add lowercase letters''] else r);
          r = (if \<not> has_uppercase ca then r @ [lit ''Add uppercase letters''] else r);
          r = (if \<not> has_digits ca then r @ [lit ''Add numbers''] else r);
          r = (if \<not> has_special ca then r @ [lit ''Add special characters (!@#$%^&*)''] else r);
          r = (if has_common_patterns pa \<noteq> [] then r @ [lit ''Avoid common password patterns'']
               else r);
          r = (if has_keyboard_patterns pa \<noteq> []
               then r @ [lit ''Avoid keyboard patterns (qwerty, 123456, etc.)''] else r);
          r = (if has_repeated_chars pa \<noteq> [] then r @ [lit ''Avoid repeated characters (aaa, 111)'']
               else r);
          r = (if has_sequential_chars pa \<noteq> []
               then r @ [lit ''Avoid sequential characters (abc, 123)''] else r);
          r = (if contains_dictionary_words pa \<noteq> [] then r @ [lit ''Avoid common dictionary words'']
               else r);
          r = (if char_diversity ca < 0.7 then r @ [lit ''Use more unique characters''] else r);
          r = (if strength_score a < 60 then r @ general_tips else r)
      in Inr (take 8 r)))"

definition zxcvbn_step :: "environment \<Rightarrow> str \<Rightarrow> zxcvbn_result option" where
  "zxcvbn_step env password =
     (case zxcvbn env of None \<Rightarrow> None | Some estimator \<Rightarrow> estimator password)"

definition analyze_password :: "environment \<Rightarrow> str \<Rightarrow> py_error + analysis" where
  "analyze_password env password =
     (if password = [] then Inr (empty_analysis env)
      else
        let ca = analyze_characters password
        in then_do (analyze_patterns password) (\<lambda>pa.
        let a = \<lparr> password_field = password, length_field = length password,
                  strength_score = 0, strength_label = lit ''Very Weak'',
                  strength_color = lit ''danger'', entropy = 0,
                  time_to_crack = lit ''Less than a second'', character_analysis = Some ca,
                  pattern_analysis = Some pa, recommendations = [],
                  zxcvbn_analysis = None, analysis_timestamp = now_text env \<rparr>;
            a = a \<lparr> entropy := calculate_entropy password \<rparr>
        in then_do (calculate_strength_score password a) (\<lambda>s.
        let a = a \<lparr> strength_score := s \<rparr>;
            a = a \<lparr> strength_label := fst (get_strength_label (strength_score a)),
                    strength_color := snd (get_strength_label (strength_score a)) \<rparr>
        in then_do (estimate_crack_time (entropy a)) (\<lambda>t.
        let a = a \<lparr> time_to_crack := t \<rparr>
        in then_do (generate_recommendations password a) (\<lambda>r.
        let a = a \<lparr> recommendations := r \<rparr>
        in Inr (a \<lparr> zxcvbn_analysis := zxcvbn_step env password \<rparr>))))))"

section \<open>The wordlist generator (pssw\_wordlist.py)\<close>

text \<open>A Python \<^verbatim>\<open>set\<close> of strings is a finite set. Python does not fix the order in which a
  set is iterated (it follows the string hashes, which change between interpreter runs),
  so that order is a parameter: any function that lists each finite set without
  repetition.\<close>

type_synonym iteration_order = "str set \<Rightarrow> str list"

definition valid_order :: "iteration_order \<Rightarrow> bool" where
  "valid_order order = (\<forall>S. finite S \<longrightarrow> set (order S) = S \<and> distinct (order S))"

text \<open>\<^verbatim>\<open>re.split\<close> on a class with \<^verbatim>\<open>+\<close>: the string is cut at every maximal run of
  separator characters; a run at the start or at the end leaves an empty piece.\<close>

function split_runs :: "(character \<Rightarrow> bool) \<Rightarrow> str \<Rightarrow> str \<Rightarrow> str list" where
  "split_runs sep cur [] = [cur]"
| "split_runs sep cur (c # cs) =
     (if sep c then cur # split_runs sep [] (dropWhile sep cs)
      else split_runs sep (cur @ [c]) cs)"
  by pat_completeness auto
termination
  by (relation "measure (\<lambda>(sep, cur, s). length s)")
     (auto simp: less_Suc_eq_le length_dropWhile_le)

text \<open>The class \<^verbatim>\<open>[,;\s\n\t]\<close>.\<close>

definition separator :: "character \<Rightarrow> bool" where
  "separator c = (c \<in> set (lit '',;'') \<or> isspace_char c \<or> ord c = 10 \<or> ord c = 9)"

definition re_split :: "str \<Rightarrow> str list" where
  "re_split s = split_runs separator [] s"

text \<open>\<^verbatim>\<open>str.split()\<close> without arguments cuts at whitespace runs and drops empty pieces.\<close>

definition split_whitespace :: "str \<Rightarrow> str list" where
  "split_whitespace s = filter (\<lambda>w. w \<noteq> []) (split_runs isspace_char [] s)"

text \<open>\<^verbatim>\<open>str.replace(old, new)\<close> and \<^verbatim>\<open>str.replace(old, new, 1)\<close>: occurrences are found
  left to right and do not overlap; an empty \<open>old\<close> matches between characters.\<close>

function replace_scan :: "str \<Rightarrow> str \<Rightarrow> str \<Rightarrow> str" where
  "replace_scan old new [] = []"
| "replace_scan old new (c # cs) =
     (if old \<noteq> [] \<and> startswith (c # cs) old
      then new @ replace_scan old new (drop (length old) (c # cs))
      else c # replace_scan old new cs)"
  by pat_completeness auto
termination
  by (relation "measure (\<lambda>(old, new, s). length s)") auto

definition replace :: "str \<Rightarrow> str \<Rightarrow> str \<Rightarrow> str" where
  "replace old new s =
     (if old = [] then new @ concat (map (\<lambda>c. c # new) s) else replace_scan old new s)"

fun replace_first_scan :: "str \<Rightarrow> str \<Rightarrow> str \<Rightarrow> str" where
  "replace_first_scan old new [] = []"
| "replace_first_scan old new (c # cs) =
     (if startswith (c # cs) old then new @ drop (length old) (c # cs)
      else c # replace_first_scan old new cs)"

definition replace_first :: "str \<Rightarrow> str \<Rightarrow> str \<Rightarrow> str" where
  "replace_first old new s = (if old = [] then new @ s else replace_first_scan old new s)"

text \<open>\<^verbatim>\<open>str(n)\<close> for a Python integer.\<close>

definition str_int :: "int \<Rightarrow> str" where
  "str_int i = (if i < 0 then lit ''-'' @ str_nat (nat (- i)) else str_nat (nat i))"

text \<open>Every element of the argument is a string here, so the \<^verbatim>\<open>isinstance\<close> test holds.
  The result is \<^verbatim>\<open>list(set(all_words))\<close>.\<close>

definition clean_inputs :: "iteration_order \<Rightarrow> str list \<Rightarrow> str list" where
  "clean_inputs order user_inputs =
     (if user_inputs = [] then []
      else
        let all_words =
              concat (map (\<lambda>input_text.
                        if strip input_text \<noteq> []
                        then filter (\<lambda>cleaned. cleaned \<noteq> [] \<and> length cleaned \<ge> 2)
                               (map strip (re_split (strip input_text)))
                        else [])
                      user_inputs)
        in order (set all_words))"

text \<open>The words one pass of a \<^verbatim>\<open>for word in words\<close> loop adds to its set, in the order of
  the \<^verbatim>\<open>add\<close> calls; a stage is the set of all of them.\<close>

definition base_forms :: "str \<Rightarrow> str list" where
  "base_forms word = [word, lower word, upper word, capitalize word]"

definition vowels :: str where
  "vowels = lit ''aeiouAEIOU''"

definition variations_of :: "str \<Rightarrow> str list" where
  "variations_of word =
     [rev word]
     @ (if length word \<ge> 3
        then [take 1 word @ upper (drop 1 word), upper (take 1 word) @ drop 1 word] else [])
     @ (let no_vowels = filter (\<lambda>c. c \<notin> set vowels) word
        in if no_vowels \<noteq> [] \<and> no_vowels \<noteq> word then [no_vowels] else [])
     @ (if length word \<le> 6 then [word @ word] else [])
     @ (if str_in (lit '' '') word
        then (let abbreviation = concat (map (take 1) (split_whitespace word))
              in if length abbreviation \<ge> 2 then [abbreviation, upper abbreviation] else [])
        else [])"

definition generate_variations :: "str list \<Rightarrow> str set" where
  "generate_variations words = set (concat (map variations_of words))"

definition leet_word_of :: "str \<Rightarrow> str" where
  "leet_word_of word =
     foldl (\<lambda>leet_word (char, replacements).
              foldl (\<lambda>leet_word replacement.
                       replace (upper char) replacement (replace char replacement leet_word))
                    leet_word replacements)
           word LEET_REPLACEMENTS"

definition partial_leets :: "str \<Rightarrow> str list" where
  "partial_leets word =
     concat (map (\<lambda>(char, replacements).
                concat (map (\<lambda>replacement.
                          let partial_leet = replace_first char replacement word
                          in if partial_leet \<noteq> word then [partial_leet] else [])
                        replacements))
              LEET_REPLACEMENTS)"

definition leet_of :: "str \<Rightarrow> str list" where
  "leet_of word =
     (let leet_word = leet_word_of word
      in (if leet_word \<noteq> word then [leet_word] else []) @ partial_leets word)"

definition generate_leet_variations :: "str set \<Rightarrow> str set" where
  "generate_leet_variations words = (\<Union>word \<in> words. set (leet_of word))"

text \<open>The year list, read from the clock at each call.\<close>

definition years :: "nat \<Rightarrow> str list" where
  "years current_year =
     [str_int (int current_year), str_int (int current_year - 1), str_int (int current_year + 1),
      last2 (str_int (int current_year)), last2 (str_int (int current_year - 1)),
      lit ''2023'', lit ''2024'', lit ''2025'', lit ''23'', lit ''24'', lit ''25'',
      lit ''1990'', lit ''1995'', lit ''2000'', lit ''2010'', lit ''90'', lit ''95'', lit ''00'', lit ''10'']"

definition year_forms :: "str \<Rightarrow> str \<Rightarrow> str list" where
  "year_forms word year = [word @ year, year @ word, word @ lit ''_'' @ year, word @ lit ''-'' @ year]"

definition add_year_combinations :: "environment \<Rightarrow> str list \<Rightarrow> str set" where
  "add_year_combinations env words =
     (let current_year = now_year env
      in set (concat (map (\<lambda>word. concat (map (year_forms word) (years current_year))) words)))"

definition suffixes :: "str list" where
  "suffixes = [lit ''1'', lit ''12'', lit ''123'', lit ''1234'', lit ''!'', lit ''!!'', lit ''?'', lit ''@'', lit ''#'', lit ''01'', lit ''001'']"

definition prefixes :: "str list" where
  "prefixes = [lit ''1'', lit ''12'', lit ''@'', lit ''#'']"

definition add_common_combinations :: "str list \<Rightarrow> str set" where
  "add_common_combinations words =
     set (concat (map (\<lambda>word. map (\<lambda>suffix. word @ suffix) suffixes
                               @ map (\<lambda>prefix. prefix @ word) prefixes) words))"

definition common_additions :: "str list" where
  "common_additions = [lit ''password'', lit ''admin'', lit ''user'', lit ''login'', lit ''secure'']"

definition patterns_of :: "str \<Rightarrow> str list" where
  "patterns_of word =
     [word @ lit ''123'', word @ lit ''456'', word @ lit ''789'', word @ lit ''!@#'', word @ lit ''***'',
      lit ''***'' @ word, capitalize word @ lit ''1'', capitalize word @ lit ''!'']
     @ concat (map (\<lambda>addition. if lower word \<noteq> addition
                                then [word @ addition, addition @ word] else [])
                   common_additions)"

definition add_common_patterns :: "str list \<Rightarrow> str set" where
  "add_common_patterns words = set (concat (map patterns_of words))"

text \<open>The four tests of the filter; \<^verbatim>\<open>isinstance(word, str)\<close> holds for every element.\<close>

definition keeps :: "str \<Rightarrow> bool" where
  "keeps word = (2 \<le> length word \<and> length word \<le> 50 \<and> strip word = word \<and> \<not> isspace word)"

definition filter_wordlist :: "iteration_order \<Rightarrow> str set \<Rightarrow> str list" where
  "filter_wordlist order wordlist =
     (let filtered = filter keeps (order wordlist);
          unique_filtered = order (set filtered);
          unique_filtered =
            (if length unique_filtered > MAX_WORDLIST_SIZE
             then take MAX_WORDLIST_SIZE unique_filtered else unique_filtered)
      in unique_filtered)"

text \<open>The set \<^verbatim>\<open>wordlist\<close> of \<^verbatim>\<open>generate_wordlist\<close> when it reaches the filter: each stage
  adds to the set built so far, and the leet stage reads a copy of that set.\<close>

definition build_wordlist ::
  "environment \<Rightarrow> str list \<Rightarrow> bool \<Rightarrow> bool \<Rightarrow> bool \<Rightarrow> bool \<Rightarrow> str set" where
  "build_wordlist env cleaned_inputs include_years include_leet include_common
       include_variations =
     (let wordlist = {};
          wordlist = wordlist \<union> set (concat (map base_forms cleaned_inputs));
          wordlist = (if include_variations
                      then wordlist \<union> generate_variations cleaned_inputs else wordlist);
          wordlist = (if include_leet
                      then wordlist \<union> generate_leet_variations wordlist else wordlist);
          wordlist = (if include_years
                      then wordlist \<union> add_year_combinations env cleaned_inputs else wordlist);
          wordlist = wordlist \<union> add_common_combinations cleaned_inputs;
          wordlist = (if include_common
                      then wordlist \<union> add_common_patterns cleaned_inputs else wordlist)
      in wordlist)"

definition generate_wordlist ::
  "environment \<Rightarrow> iteration_order \<Rightarrow> str list \<Rightarrow> bool \<Rightarrow> bool \<Rightarrow> bool \<Rightarrow> bool
     \<Rightarrow> str list" where
  "generate_wordlist env order user_inputs include_years include_leet include_common
       include_variations =
     (let cleaned_inputs = clean_inputs order user_inputs
      in if cleaned_inputs = [] then []
         else
           let wordlist = build_wordlist env cleaned_inputs include_years include_leet
                            include_common include_variations;
               final_wordlist = filter_wordlist order wordlist
           in sort final_wordlist)"

section \<open>The specification's wording\<close>

text \<open>A fixed reading of the clock, with no estimator installed.\<close>

definition clock_2026 :: environment where
  "clock_2026 = \<lparr> now_year = 2026, now_text = lit ''2026-11-04 09:30:00'', zxcvbn = None \<rparr>"

text \<open>Passwords in which every character that \<^verbatim>\<open>str.isdigit\<close> accepts is a decimal
  digit, and passwords with no character of the four classes.\<close>

definition decimal_digits_only :: "str \<Rightarrow> bool" where
  "decimal_digits_only p = list_all (\<lambda>c. isdigit_char c \<longrightarrow> re_digit c) p"

definition outside_classes :: "str \<Rightarrow> bool" where
  "outside_classes p =
     list_all (\<lambda>c. \<not> re_lower c \<and> \<not> re_upper c \<and> \<not> re_digit c \<and> \<not> re_special c) p"

text \<open>A sequential triple in the specification's words: three digits, or three letters
  read without case, whose code points ascend by exactly one.\<close>

definition ascending_run :: "str \<Rightarrow> bool" where
  "ascending_run w =
     (length w = 3 \<and> ord (w ! 1) = ord (w ! 0) + 1 \<and> ord (w ! 2) = ord (w ! 1) + 1)"

definition sequential_run :: "str \<Rightarrow> bool" where
  "sequential_run w =
     ((list_all re_digit w \<and> ascending_run w)
      \<or> (list_all isalpha_char (lower w) \<and> ascending_run (lower w)))"

text \<open>The score composition of the specification: the length tiers and the entropy
  bonus as tables of thresholds read top to bottom, and the four penalties, each applied
  once whatever the number of hits.\<close>

definition tier :: "(real \<times> real) list \<Rightarrow> real \<Rightarrow> real" where
  "tier table x =
     (case find (\<lambda>(threshold, points). threshold \<le> x) table of
        Some (threshold, points) \<Rightarrow> points
      | None \<Rightarrow> 0)"

definition length_tiers :: "(real \<times> real) list" where
  "length_tiers = [(12, 30), (8, 20), (6, 10), (4, 5)]"

definition entropy_tiers :: "(real \<times> real) list" where
  "entropy_tiers = [(60, 20), (40, 15), (25, 10), (15, 5)]"

definition pattern_penalties :: "pattern_analysis \<Rightarrow> real" where
  "pattern_penalties pa =
     sum_list (map (\<lambda>(hits, penalty). if hits \<noteq> [] then penalty else 0)
       [(has_common_patterns pa, 10), (has_keyboard_patterns pa, 5),
        (has_repeated_chars pa, 5), (has_sequential_chars pa, 5)])"

text \<open>Two analysis dictionaries that no password produces, one with every term of the sum
  inflated and one with nothing but penalties.\<close>

definition inflated_analysis :: analysis where
  "inflated_analysis =
     (empty_analysis clock_2026)
       \<lparr> entropy := 80,
         character_analysis :=
           Some \<lparr> has_lowercase = True, has_uppercase = True, has_digits = True,
                  has_special = True, lowercase_count = 3, uppercase_count = 3,
                  digit_count = 3, special_count = 3, unique_chars = 12,
                  char_diversity = 10, character_types = 4 \<rparr>,
         pattern_analysis :=
           Some \<lparr> has_common_patterns = [], has_keyboard_patterns = [],
                  has_repeated_chars = [], has_sequential_chars = [],
                  common_substitutions = [], contains_dictionary_words = [] \<rparr> \<rparr>"

definition penalized_analysis :: analysis where
  "penalized_analysis =
     (empty_analysis clock_2026)
       \<lparr> character_analysis :=
           Some \<lparr> has_lowercase = False, has_uppercase = False, has_digits = False,
                  has_special = False, lowercase_count = 0, uppercase_count = 0,
                  digit_count = 0, special_count = 0, unique_chars = 0,
                  char_diversity = 0, character_types = 0 \<rparr>,
         pattern_analysis :=
           Some \<lparr> has_common_patterns = [lit ''admin''],
                  has_keyboard_patterns = [lit ''asdf''],
                  has_repeated_chars = [lit ''aaa''], has_sequential_chars = [lit ''abc''],
                  common_substitutions = [], contains_dictionary_words = [] \<rparr> \<rparr>"

text \<open>The crack-time table of the specification: the estimate in seconds, the units with
  their upper limits, and the truncated count of the first unit whose limit is not
  reached.\<close>

definition seconds_to_crack :: "real \<Rightarrow> real" where
  "seconds_to_crack e = 2 powr e / (2 * 10 ^ 9)"

definition time_units :: "(real \<times> real \<times> str) list" where
  "time_units =
     [(60, 1, lit ''seconds''), (3600, 60, lit ''minutes''), (86400, 3600, lit ''hours''),
      (2592000, 86400, lit ''days''), (31536000, 2592000, lit ''months'')]"

definition truncated :: "real \<Rightarrow> nat" where
  "truncated x = nat \<lfloor>x\<rfloor>"

definition bucketed_crack_time :: "real \<Rightarrow> str" where
  "bucketed_crack_time e =
     (if e \<le> 0 then lit ''Instantly''
      else
        let s = seconds_to_crack e
        in if s < 1 then lit ''Less than a second''
           else case find (\<lambda>(limit, unit_seconds, name). s < limit) time_units of
                  Some (limit, unit_seconds, name) \<Rightarrow>
                    str_nat (truncated (s / unit_seconds)) @ lit '' '' @ name
                | None \<Rightarrow>
                    (let years = truncated (s / 31536000)
                     in if years > 1000000 then lit ''Millions of years''
                        else str_nat years @ lit '' years''))"

text \<open>The recommendation rules of the specification, top to bottom: a condition and the
  message it appends. The second length rule is the \<^verbatim>\<open>elif\<close> of the first.\<close>

definition recommendation_rules ::
  "nat \<Rightarrow> char_analysis \<Rightarrow> pattern_analysis \<Rightarrow> (bool \<times> str) list" where
  "recommendation_rules n ca pa =
     [(n < 8, lit ''Use at least 8 characters (12+ recommended)''),
      (\<not> n < 8 \<and> n < 12, lit ''Consider using 12 or more characters for better security''),
      (\<not> has_lowercase ca, lit ''Add lowercase letters''),
      (\<not> has_uppercase ca, lit ''Add uppercase letters''),
      (\<not> has_digits ca, lit ''Add numbers''),
      (\<not> has_special ca, lit ''Add special characters (!@#$%^&*)''),
      (has_common_patterns pa \<noteq> [], lit ''Avoid common password patterns''),
      (has_keyboard_patterns pa \<noteq> [], lit ''Avoid keyboard patterns (qwerty, 123456, etc.)''),
      (has_repeated_chars pa \<noteq> [], lit ''Avoid repeated characters (aaa, 111)''),
      (has_sequential_chars pa \<noteq> [], lit ''Avoid sequential characters (abc, 123)''),
      (contains_dictionary_words pa \<noteq> [], lit ''Avoid common dictionary words''),
      (char_diversity ca < 0.7, lit ''Use more unique characters'')]"

definition generated_in_order ::
  "nat \<Rightarrow> char_analysis \<Rightarrow> pattern_analysis \<Rightarrow> int \<Rightarrow> str list" where
  "generated_in_order n ca pa s =
     map snd (filter fst (recommendation_rules n ca pa))
     @ (if s < 60 then general_tips else [])"

definition ordered_recommendations ::
  "nat \<Rightarrow> char_analysis \<Rightarrow> pattern_analysis \<Rightarrow> int \<Rightarrow> str list" where
  "ordered_recommendations n ca pa s = take 8 (generated_in_order n ca pa s)"

text \<open>The record a completed analysis returns, given the pattern findings and the
  crack-time text.\<close>

definition completed_analysis :: "environment \<Rightarrow> str \<Rightarrow> pattern_analysis \<Rightarrow> str \<Rightarrow> analysis" where
  "completed_analysis env p pa t =
     (let ca = analyze_characters p; e = calculate_entropy p;
          s = max 0 (min 100 (py_round (raw_score p ca pa e)))
      in \<lparr> password_field = p, length_field = length p, strength_score = s,
            strength_label = fst (get_strength_label s),
            strength_color = snd (get_strength_label s), entropy = e, time_to_crack = t,
            character_analysis = Some ca, pattern_analysis = Some pa,
            recommendations = ordered_recommendations (length p) ca pa s,
            zxcvbn_analysis = zxcvbn_step env p, analysis_timestamp = now_text env \<rparr>)"

text \<open>The words that pass the filter, before the size cap.\<close>

definition kept_words :: "str set \<Rightarrow> str set" where
  "kept_words wordlist = {w \<in> wordlist. keeps w}"

section \<open>Properties\<close>

subsection \<open>The analyzer: auxiliary facts\<close>

lemma repeated_loop_length:
  "3 * length (repeated_loop p i acc) + i \<le> 3 * length acc + max i (length p)"
proof (induction p i acc rule: repeated_loop.induct)
  case (1 password i repeated)
  show ?case
  proof (cases "int i < int (length password) - 2")
    case False
    then show ?thesis by (simp add: repeated_loop.simps)
  next
    case True
    note inr = this
    show ?thesis
    proof (cases "password ! i = password ! (i + 1) \<and> password ! (i + 1) = password ! (i + 2)")
      case True
      have eq: "repeated_loop password i repeated =
          repeated_loop password (i + 3) (repeated @ [replicate 3 (password ! i)])"
        using inr True by (subst repeated_loop.simps) simp
      from "1.IH"(1) [OF inr True] inr show ?thesis
        unfolding eq by simp
    next
      case False
      have eq: "repeated_loop password i repeated =
          repeated_loop password (i + 1) repeated"
        using inr False by (subst repeated_loop.simps) auto
      from "1.IH"(2) [OF inr False] inr show ?thesis
        unfolding eq by simp
    qed
  qed
qed

lemma repeated_triples_disjoint: "3 * length (check_repeated_characters p) \<le> length p"
  using repeated_loop_length [of p 0 "[]"] by (simp add: check_repeated_characters_def)

lemma analyze_empty: "analyze_password env [] = Inr (empty_analysis env)"
  by (simp add: analyze_password_def)

lemma py_round_near: "\<bar>real_of_int (py_round x) - x\<bar> \<le> 1 / 2"
  unfolding py_round_def Let_def by (auto simp: abs_if) linarith+

lemma calc_total:
  "character_analysis a = Some ca \<Longrightarrow> pattern_analysis a = Some pa \<Longrightarrow>
   calculate_strength_score p a = Inr (max 0 (min 100 (py_round (raw_score p ca pa (entropy a)))))"
  by (simp add: calculate_strength_score_def then_do_def subdict_def)

lemma calc_range: "calculate_strength_score p a = Inr s \<Longrightarrow> 0 \<le> s \<and> s \<le> 100"
  by (auto simp: calculate_strength_score_def then_do_def subdict_def split: option.splits)

lemma slice3:
  "i + 3 \<le> length p \<Longrightarrow> slice p i (i + 3) = [p ! i, p ! (i + 1), p ! (i + 2)]"
  by (auto simp: slice_def list_eq_iff_nth_eq less_Suc_eq numeral_3_eq_3 add.commute)

lemma int_char_Inr: "int_char c = Inr n \<Longrightarrow> re_digit c \<and> n = int (ord c) - 48"
  by (auto simp: int_char_def split: if_splits)

lemma numeric_window_sound:
  assumes "numeric_window p i = Inr True" and "i + 3 \<le> length p"
  shows "sequential_run (slice p i (i + 3))"
proof -
  from assms(1) obtain a b c where
    abc: "int_char (p ! i) = Inr a" "int_char (p ! (i + 1)) = Inr b" "int_char (p ! (i + 2)) = Inr c"
    and asc: "b = a + 1" "c = b + 1"
    by (auto simp: numeric_window_def then_do_def split: if_splits sum.splits)
  from abc have dig: "re_digit (p ! i)" "re_digit (p ! (i + 1))" "re_digit (p ! (i + 2))"
    and val: "a = int (ord (p ! i)) - 48" "b = int (ord (p ! (i + 1))) - 48"
      "c = int (ord (p ! (i + 2))) - 48"
    by (auto dest: int_char_Inr)
  from asc val have "ord (p ! (i + 1)) = ord (p ! i) + 1" "ord (p ! (i + 2)) = ord (p ! (i + 1)) + 1"
    by linarith+
  with dig show ?thesis
    by (simp add: slice3 [OF assms(2)] sequential_run_def ascending_run_def)
qed

lemma alphabetic_window_sound:
  assumes "alphabetic_window p i" and "i + 3 \<le> length p"
  shows "sequential_run (slice p i (i + 3))"
  using assms(1)
  by (simp add: alphabetic_window_def Let_def sequential_run_def ascending_run_def isalpha_def
      slice3 [OF assms(2)] lower_def)

lemma numeric_loop_sound:
  "numeric_loop p js acc = Inr xs \<Longrightarrow> \<forall>i\<in>set js. i + 3 \<le> length p \<Longrightarrow>
   \<forall>w\<in>set acc. sequential_run w \<Longrightarrow> \<forall>w\<in>set xs. sequential_run w"
proof (induction js arbitrary: acc)
  case Nil
  then show ?case by simp
next
  case (Cons j js)
  from Cons.prems(1) obtain hit where hit: "numeric_window p j = Inr hit"
    and rest: "numeric_loop p js (if hit then acc @ [slice p j (j + 3)] else acc) = Inr xs"
    by (auto split: sum.splits)
  have "\<forall>w\<in>set (if hit then acc @ [slice p j (j + 3)] else acc). sequential_run w"
    using Cons.prems(2,3) hit by (auto intro: numeric_window_sound)
  with Cons.IH [OF rest] Cons.prems(2) show ?case by simp
qed

lemma alphabetic_loop_sound:
  "\<forall>i\<in>set js. i + 3 \<le> length p \<Longrightarrow> \<forall>w\<in>set acc. sequential_run w \<Longrightarrow>
   \<forall>w\<in>set (alphabetic_loop p js acc). sequential_run w"
proof (induction js arbitrary: acc)
  case Nil
  then show ?case by simp
next
  case (Cons j js)
  have "\<forall>w\<in>set (if alphabetic_window p j then acc @ [slice p j (j + 3)] else acc).
          sequential_run w"
    using Cons.prems by (auto intro: alphabetic_window_sound)
  with Cons.IH Cons.prems(1) show ?case by simp
qed

lemma range_windows: "\<forall>i\<in>set [0 ..< length p - 2]. i + 3 \<le> length (p :: str)"
  by auto

lemma check_sequential_sound:
  assumes "check_sequential_characters p = Inr xs" and "w \<in> set xs"
  shows "sequential_run w"
proof -
  from assms(1) obtain ys where ys: "numeric_loop p [0 ..< length p - 2] [] = Inr ys"
    and xs: "xs = alphabetic_loop p [0 ..< length p - 2] ys"
    by (auto simp: check_sequential_characters_def split: sum.splits)
  have "\<forall>w\<in>set ys. sequential_run w"
    using numeric_loop_sound [OF ys range_windows] by simp
  then have "\<forall>w\<in>set xs. sequential_run w"
    unfolding xs by (rule alphabetic_loop_sound [OF range_windows])
  with assms(2) show ?thesis by blast
qed

lemma numeric_window_total:
  assumes "decimal_digits_only p" and "i + 3 \<le> length p"
  shows "\<exists>b. numeric_window p i = Inr b"
proof (cases "isdigit (slice p i (i + 3))")
  case False
  then show ?thesis by (auto simp: numeric_window_def)
next
  case True
  then have d: "isdigit_char (p ! i)" "isdigit_char (p ! (i + 1))" "isdigit_char (p ! (i + 2))"
    by (simp_all add: isdigit_def slice3 [OF assms(2)])
  have mem: "p ! i \<in> set p" "p ! (i + 1) \<in> set p" "p ! (i + 2) \<in> set p"
    using assms(2) by simp_all
  from assms(1) d mem have "re_digit (p ! i)" "re_digit (p ! (i + 1))" "re_digit (p ! (i + 2))"
    by (auto simp: decimal_digits_only_def list_all_iff)
  with True show ?thesis
    by (auto simp: numeric_window_def then_do_def int_char_def)
qed

lemma numeric_loop_total:
  "decimal_digits_only p \<Longrightarrow> \<forall>i\<in>set js. i + 3 \<le> length p \<Longrightarrow>
   \<exists>xs. numeric_loop p js acc = Inr xs"
proof (induction js arbitrary: acc)
  case Nil
  then show ?case by simp
next
  case (Cons j js)
  from numeric_window_total [OF Cons.prems(1), of j] Cons.prems(2)
  obtain b where "numeric_window p j = Inr b" by auto
  with Cons.IH [OF Cons.prems(1)] Cons.prems(2) show ?case by simp
qed

lemma check_sequential_total:
  "decimal_digits_only p \<Longrightarrow> \<exists>xs. check_sequential_characters p = Inr xs"
  using numeric_loop_total [OF _ range_windows, of p "[]"]
  by (auto simp: check_sequential_characters_def)

lemma analyze_patterns_total:
  "decimal_digits_only p \<Longrightarrow> \<exists>pa. analyze_patterns p = Inr pa"
  using check_sequential_total [of p] by (auto simp: analyze_patterns_def)

lemma step_append: "(if c then r @ ms else r) = r @ (if c then ms else [])"
  by simp

lemma first_rule:
  "(if (n::nat) < 8 then r @ [m1] else if n < 12 then r @ [m2] else r) =
   r @ (if n < 8 then [m1] else []) @ (if \<not> n < 8 \<and> n < 12 then [m2] else [])"
  by simp

lemma first_rule_Nil:
  "(if (n::nat) < 8 then [m1] else if n < 12 then [m2] else []) =
   (if n < 8 then [m1] else []) @ (if \<not> n < 8 \<and> n < 12 then [m2] else [])"
  by simp

lemma rule_Nil: "map snd (filter fst []) = []"
  by simp

lemma rule_cons:
  "map snd (filter fst ((c, m) # rules)) = (if c then [m] else []) @ map snd (filter fst rules)"
  by simp

lemma generate_recommendations_eq:
  assumes "character_analysis a = Some ca" and "pattern_analysis a = Some pa"
  shows "generate_recommendations p a =
         Inr (ordered_recommendations (length_field a) ca pa (strength_score a))"
  unfolding generate_recommendations_def ordered_recommendations_def generated_in_order_def
    recommendation_rules_def
  by (simp only: assms subdict_def then_do_def option.case sum.case first_rule first_rule_Nil
      step_append rule_cons rule_Nil Let_def append_Nil append_assoc append_Nil2)

lemma estimate_crack_time_eq:
  "e < 1024 \<Longrightarrow> estimate_crack_time e = Inr (bucketed_crack_time e)"
  by (simp add: estimate_crack_time_def bucketed_crack_time_def seconds_to_crack_def
      time_units_def truncated_def Let_def)

lemma estimate_crack_time_overflow:
  "1024 \<le> e \<Longrightarrow> estimate_crack_time e = Inl OverflowError"
  by (simp add: estimate_crack_time_def)

lemma analyze_password_nonempty:
  assumes "p \<noteq> []"
  shows "analyze_password env p =
         then_do (analyze_patterns p) (\<lambda>pa.
         then_do (estimate_crack_time (calculate_entropy p)) (\<lambda>t. Inr (completed_analysis env p pa t)))"
proof (cases "analyze_patterns p")
  case (Inl e)
  with assms show ?thesis by (simp add: analyze_password_def then_do_def)
next
  case (Inr pa)
  show ?thesis
  proof (cases "estimate_crack_time (calculate_entropy p)")
    case (Inl e)
    with Inr assms show ?thesis
      by (simp add: analyze_password_def then_do_def Let_def calc_total)
  next
    case t: (Inr t)
    with Inr assms show ?thesis
      by (simp add: analyze_password_def then_do_def Let_def calc_total
          generate_recommendations_eq completed_analysis_def)
  qed
qed

lemma log2_94: "log 2 94 < 59 / 9"
proof -
  have "log 2 ((94::real) ^ 9) = real 9 * log 2 94" by (rule log_nat_power) simp
  moreover have "log 2 ((2::real) ^ 59) = real 59 * log 2 2" by (rule log_nat_power) simp
  moreover have "log 2 ((94::real) ^ 9) < log 2 (2 ^ 59)" by (rule log_less) simp_all
  ultimately show ?thesis by simp
qed

lemma log2_32: "log 2 32 = 5"
  using log_nat_power [of 2 2 5] by simp

lemma charset_size_cases:
  "charset_size p = 0 \<or> (10 \<le> charset_size p \<and> charset_size p \<le> 94)"
  by (simp add: charset_size_def)

lemma round2_le: "round2 x \<le> x + 1 / 200"
proof -
  from py_round_near [of "x * 100"]
  have "real_of_int (py_round (x * 100)) \<le> x * 100 + 1 / 2" by linarith
  then show ?thesis by (simp add: round2_def field_simps)
qed

lemma round2_int: "round2 (of_int n) = of_int n"
proof -
  have "of_int n * (100::real) = of_int (n * 100)" by simp
  then show ?thesis
    by (simp only: round2_def py_round_def Let_def floor_of_int) simp
qed

lemma entropy_bound:
  assumes "length p \<le> 156"
  shows "calculate_entropy p < 1024"
proof (cases "p = [] \<or> charset_size p = 0")
  case True
  then show ?thesis
    using round2_int [of 0] by (auto simp: calculate_entropy_def)
next
  case False
  with charset_size_cases [of p] have cs: "10 \<le> charset_size p" "charset_size p \<le> 94" by auto
  have "log 2 (real (charset_size p)) \<le> log 2 94"
    using cs by (intro log_mono) simp_all
  with log2_94 have l: "log 2 (real (charset_size p)) \<le> 59 / 9" by simp
  have l0: "0 \<le> log 2 (real (charset_size p))" using cs by simp
  have "real (length p) * log 2 (real (charset_size p)) \<le> 156 * (59 / 9)"
    using assms l l0 by (intro mult_mono) simp_all
  with round2_le [of "real (length p) * log 2 (real (charset_size p))"] False
  show ?thesis by (simp add: calculate_entropy_def)
qed

lemma entropy_specials: "calculate_entropy (replicate 205 (Latin1 (CHR ''!''))) = 1025"
proof -
  have cs: "charset_size (replicate 205 (Latin1 (CHR ''!''))) = 32"
    by (simp add: charset_size_def list_ex_iff re_lower_def re_upper_def re_digit_def
        re_special_def special_chars_def between_def ord_def)
  have "round2 (205 * 5) = 1025" using round2_int [of 1025] by simp
  then show ?thesis by (simp add: calculate_entropy_def cs log2_32)
qed

lemma label_not_invalid: "fst (get_strength_label s) \<noteq> lit ''Invalid''"
  by (simp add: get_strength_label_def)

lemma analyze_password_completes:
  assumes "p \<noteq> []" and "decimal_digits_only p" and "calculate_entropy p < 1024"
  shows "\<exists>pa t. analyze_patterns p = Inr pa
           \<and> estimate_crack_time (calculate_entropy p) = Inr t
           \<and> analyze_password env p = Inr (completed_analysis env p pa t)"
proof -
  from analyze_patterns_total [OF assms(2)] obtain pa where pa: "analyze_patterns p = Inr pa" ..
  from estimate_crack_time_eq [OF assms(3)]
  have t: "estimate_crack_time (calculate_entropy p) = Inr (bucketed_crack_time (calculate_entropy p))" .
  show ?thesis
    using pa t by (simp add: analyze_password_nonempty [OF assms(1)] then_do_def)
qed

lemma analyze_password_Inr:
  assumes "p \<noteq> []" and "analyze_password env p = Inr r"
  shows "\<exists>pa t. analyze_patterns p = Inr pa
           \<and> estimate_crack_time (calculate_entropy p) = Inr t
           \<and> r = completed_analysis env p pa t"
  using assms(2) unfolding analyze_password_nonempty [OF assms(1)] then_do_def
  by (auto split: sum.splits)

lemma completed_score_range:
  "0 \<le> strength_score (completed_analysis env p pa t)
   \<and> strength_score (completed_analysis env p pa t) \<le> 100"
  by (simp add: completed_analysis_def Let_def)

lemma analyze_score_range:
  assumes "analyze_password env p = Inr r"
  shows "0 \<le> strength_score r \<and> strength_score r \<le> 100"
proof (cases "p = []")
  case True
  with assms show ?thesis by (auto simp: analyze_empty empty_analysis_def)
next
  case False
  from analyze_password_Inr [OF False assms] completed_score_range show ?thesis by auto
qed

lemma outside_charset: "outside_classes p \<Longrightarrow> charset_size p = 0"
  by (auto simp: outside_classes_def charset_size_def list_all_iff list_ex_iff)

lemma outside_entropy: "outside_classes p \<Longrightarrow> calculate_entropy p = 0"
  using round2_int [of 0] by (simp add: calculate_entropy_def outside_charset)

lemma outside_types: "outside_classes p \<Longrightarrow> character_types (analyze_characters p) = 0"
  by (auto simp: outside_classes_def analyze_characters_def Let_def bool_count_def
      list_all_iff list_ex_iff)

lemma crack_time_zero: "estimate_crack_time 0 = Inr (lit ''Instantly'')"
  by (simp add: estimate_crack_time_def)

lemma underscores_ok: "lit ''___'' \<noteq> [] \<and> decimal_digits_only (lit ''___'') \<and> outside_classes (lit ''___'')"
  by (simp add: decimal_digits_only_def outside_classes_def isdigit_char_def re_digit_def
      re_lower_def re_upper_def re_special_def special_chars_def between_def ord_def)

lemma raw_score_additive:
  "raw_score p ca pa e =
     tier length_tiers (real (length p)) + real (character_types ca) * 6.25
     + char_diversity ca * 15 + tier entropy_tiers e - pattern_penalties pa"
  by (simp add: raw_score_def length_points_def entropy_points_def tier_def length_tiers_def
      entropy_tiers_def pattern_penalties_def)

lemma analyze_score_additive:
  assumes "p \<noteq> []" and "analyze_password env p = Inr r"
  shows "\<exists>pa. analyze_patterns p = Inr pa
           \<and> strength_score r =
               max 0 (min 100 (py_round
                 (tier length_tiers (real (length p))
                  + real (character_types (analyze_characters p)) * 6.25
                  + char_diversity (analyze_characters p) * 15
                  + tier entropy_tiers (calculate_entropy p) - pattern_penalties pa)))"
proof -
  from analyze_password_Inr [OF assms] obtain pa t
    where pa: "analyze_patterns p = Inr pa" and r: "r = completed_analysis env p pa t"
    by blast
  have "strength_score r =
          max 0 (min 100 (py_round (raw_score p (analyze_characters p) pa (calculate_entropy p))))"
    by (simp add: r completed_analysis_def Let_def)
  with pa show ?thesis
    by (simp add: raw_score_additive)
qed

lemma round2_ge: "x - 1 / 200 \<le> round2 x"
proof -
  from py_round_near [of "x * 100"]
  have "x * 100 - 1 / 2 \<le> real_of_int (py_round (x * 100))" by linarith
  then show ?thesis by (simp add: round2_def field_simps)
qed

lemma entropy_abc123:
  "25 \<le> calculate_entropy (lit ''abc123'') \<and> calculate_entropy (lit ''abc123'') < 40"
proof -
  have cs: "charset_size (lit ''abc123'') = 36"
    by (simp add: charset_size_def re_lower_def re_upper_def re_digit_def re_special_def
        special_chars_def between_def ord_def)
  have "log 2 32 \<le> log 2 36" by simp
  moreover have "log 2 32 = 5" using log_nat_power [of 2 2 5] by simp
  moreover have "log 2 36 \<le> log 2 64" by simp
  moreover have "log 2 64 = 6" using log_nat_power [of 2 2 6] by simp
  ultimately have b: "30 \<le> 6 * log 2 36 \<and> 6 * log 2 36 \<le> 36" by linarith
  have e: "calculate_entropy (lit ''abc123'') = round2 (6 * log 2 36)"
    using cs by (simp add: calculate_entropy_def)
  from b round2_ge [of "6 * log 2 36"] round2_le [of "6 * log 2 36"] show ?thesis
    unfolding e by linarith
qed

lemma characters_abc123:
  "character_types (analyze_characters (lit ''abc123'')) = 2
   \<and> char_diversity (analyze_characters (lit ''abc123'')) = 1"
  by (simp add: analyze_characters_def Let_def bool_count_def re_lower_def re_upper_def
      re_digit_def re_special_def special_chars_def between_def ord_def)

lemma patterns_abc123:
  "analyze_patterns (lit ''abc123'') =
     Inr \<lparr> has_common_patterns = [lit ''abc123''], has_keyboard_patterns = [],
           has_repeated_chars = [], has_sequential_chars = [lit ''123'', lit ''abc''],
           common_substitutions = [lit ''3 -> e'', lit ''1 -> i'', lit ''1 -> l''],
           contains_dictionary_words = [] \<rparr>"
  by code_simp

lemma tier_values:
  "tier length_tiers 6 = 10 \<and> tier length_tiers 12 = 30 \<and> tier length_tiers 0 = 0
   \<and> tier entropy_tiers 80 = 20 \<and> tier entropy_tiers 0 = 0
   \<and> (25 \<le> e \<and> e < 40 \<longrightarrow> tier entropy_tiers e = 10)"
  by (simp add: tier_def length_tiers_def entropy_tiers_def)

lemma py_round_values:
  "py_round (65 / 2) = 32 \<and> py_round 225 = 225 \<and> py_round (- 25) = - 25"
  by (simp add: py_round_def Let_def)

subsection \<open>The analyzer: the claims\<close>

text \<open>C1. The strength score is an integer between 0 and 100, and it is the additive sum
  rounded and clamped: the length tier, plus 6.25 for each character type, plus 15 times
  the diversity ratio, plus the entropy bonus, less the pattern penalties. The record
  that \<open>analyze_password\<close> returns for a non-empty password carries this score, computed
  from the character analysis, the pattern findings and the entropy of the password; the
  score function returns it for whatever analysis it is given, so also when the sum lies
  outside the range; rounding moves the sum by at most one half.\<close>

theorem strength_score_in_range:
  "(analyze_password env p = Inr r \<longrightarrow> 0 \<le> strength_score r \<and> strength_score r \<le> 100)
   \<and> (p \<noteq> [] \<longrightarrow> analyze_password env p = Inr r \<longrightarrow>
        (\<exists>found. analyze_patterns p = Inr found
           \<and> strength_score r =
               max 0 (min 100 (py_round
                 (tier length_tiers (real (length p))
                  + real (character_types (analyze_characters p)) * 6.25
                  + char_diversity (analyze_characters p) * 15
                  + tier entropy_tiers (calculate_entropy p) - pattern_penalties found)))))
   \<and> (calculate_strength_score p a = Inr s \<longrightarrow> 0 \<le> s \<and> s \<le> 100)
   \<and> (character_analysis a = Some ca \<longrightarrow> pattern_analysis a = Some pa \<longrightarrow>
        calculate_strength_score p a =
          Inr (max 0 (min 100 (py_round
                 (tier length_tiers (real (length p)) + real (character_types ca) * 6.25
                  + char_diversity ca * 15 + tier entropy_tiers (entropy a)
                  - pattern_penalties pa)))))
   \<and> \<bar>real_of_int (py_round x) - x\<bar> \<le> 1 / 2"
proof -
  have "character_analysis a = Some ca \<longrightarrow> pattern_analysis a = Some pa \<longrightarrow>
        calculate_strength_score p a =
          Inr (max 0 (min 100 (py_round
                 (tier length_tiers (real (length p)) + real (character_types ca) * 6.25
                  + char_diversity ca * 15 + tier entropy_tiers (entropy a)
                  - pattern_penalties pa))))"
    using calc_total [of a ca pa p] by (simp add: raw_score_additive)
  then show ?thesis
    using analyze_score_range [of env p r] analyze_score_additive [of p env r]
      calc_range [of p a s] py_round_near [of x]
    by blast
qed

text \<open>The password abc123 has the sum 10 + 12.5 + 15 + 10 - 10 - 5 = 32.5 and the score
  32; a dictionary with inflated terms has the sum 225 and the score 100, one with
  nothing but penalties has the sum -25 and the score 0.\<close>

theorem strength_score_in_range_witness:
  "(\<exists>r found. analyze_password clock_2026 (lit ''abc123'') = Inr r
      \<and> analyze_patterns (lit ''abc123'') = Inr found
      \<and> tier length_tiers (real (length (lit ''abc123''))) = 10
      \<and> real (character_types (analyze_characters (lit ''abc123''))) * 6.25 = 12.5
      \<and> char_diversity (analyze_characters (lit ''abc123'')) * 15 = 15
      \<and> tier entropy_tiers (calculate_entropy (lit ''abc123'')) = 10
      \<and> pattern_penalties found = 15
      \<and> strength_score r = 32)
   \<and> character_analysis inflated_analysis \<noteq> None
   \<and> pattern_analysis inflated_analysis \<noteq> None
   \<and> calculate_strength_score (lit ''abcdefghijkl'') inflated_analysis = Inr 100
   \<and> character_analysis penalized_analysis \<noteq> None
   \<and> pattern_analysis penalized_analysis \<noteq> None
   \<and> calculate_strength_score [] penalized_analysis = Inr 0"
proof -
  have ne: "lit ''abc123'' \<noteq> []" by simp
  have d: "decimal_digits_only (lit ''abc123'')"
    by (simp add: decimal_digits_only_def isdigit_char_def re_digit_def between_def ord_def)
  have e: "calculate_entropy (lit ''abc123'') < 1024"
    using entropy_abc123 by linarith
  from analyze_password_completes [OF ne d e, of clock_2026] obtain r
    where r: "analyze_password clock_2026 (lit ''abc123'') = Inr r"
    by blast
  from strength_score_in_range [of clock_2026 "lit ''abc123''" r] ne r obtain found
    where f: "analyze_patterns (lit ''abc123'') = Inr found"
      and s: "strength_score r =
               max 0 (min 100 (py_round
                 (tier length_tiers (real (length (lit ''abc123'')))
                  + real (character_types (analyze_characters (lit ''abc123''))) * 6.25
                  + char_diversity (analyze_characters (lit ''abc123'')) * 15
                  + tier entropy_tiers (calculate_entropy (lit ''abc123''))
                  - pattern_penalties found)))"
    by blast
  have t1: "tier length_tiers (real (length (lit ''abc123''))) = 10"
    using tier_values by simp
  have t2: "real (character_types (analyze_characters (lit ''abc123''))) * 6.25 = 12.5"
    using characters_abc123 by simp
  have t3: "char_diversity (analyze_characters (lit ''abc123'')) * 15 = 15"
    using characters_abc123 by simp
  have t4: "tier entropy_tiers (calculate_entropy (lit ''abc123'')) = 10"
    using tier_values [of "calculate_entropy (lit ''abc123'')"] entropy_abc123 by blast
  have t5: "pattern_penalties found = 15"
    using f unfolding patterns_abc123 by (auto simp: pattern_penalties_def)
  have "strength_score r = 32"
    unfolding s t1 t2 t3 t4 t5 using py_round_values by simp
  with r f t1 t2 t3 t4 t5 have 1:
    "\<exists>r found. analyze_password clock_2026 (lit ''abc123'') = Inr r
      \<and> analyze_patterns (lit ''abc123'') = Inr found
      \<and> tier length_tiers (real (length (lit ''abc123''))) = 10
      \<and> real (character_types (analyze_characters (lit ''abc123''))) * 6.25 = 12.5
      \<and> char_diversity (analyze_characters (lit ''abc123'')) * 15 = 15
      \<and> tier entropy_tiers (calculate_entropy (lit ''abc123'')) = 10
      \<and> pattern_penalties found = 15
      \<and> strength_score r = 32"
    by blast
  obtain ca pa where i: "character_analysis inflated_analysis = Some ca"
      "pattern_analysis inflated_analysis = Some pa"
      "character_types ca = 4" "char_diversity ca = 10" "pattern_penalties pa = 0"
      "entropy inflated_analysis = 80"
    by (simp add: inflated_analysis_def empty_analysis_def pattern_penalties_def)
  have 2: "calculate_strength_score (lit ''abcdefghijkl'') inflated_analysis = Inr 100"
    using strength_score_in_range [of _ "lit ''abcdefghijkl''" _ inflated_analysis _ ca pa]
      i tier_values py_round_values
    by simp
  obtain ca' pa' where l: "character_analysis penalized_analysis = Some ca'"
      "pattern_analysis penalized_analysis = Some pa'"
      "character_types ca' = 0" "char_diversity ca' = 0" "pattern_penalties pa' = 25"
      "entropy penalized_analysis = 0"
    by (simp add: penalized_analysis_def empty_analysis_def pattern_penalties_def)
  have 3: "calculate_strength_score [] penalized_analysis = Inr 0"
    using strength_score_in_range [of _ "[]" _ penalized_analysis _ ca' pa']
      l tier_values py_round_values
    by simp
  from 1 2 3 i(1,2) l(1,2) show ?thesis by simp
qed

text \<open>C4. The empty password is answered with the fixed record: score 0, label Invalid
  and exactly one recommendation; nothing is raised.\<close>

theorem empty_password_invalid_record:
  "analyze_password env [] = Inr (empty_analysis env)
   \<and> strength_score (empty_analysis env) = 0
   \<and> strength_label (empty_analysis env) = lit ''Invalid''
   \<and> recommendations (empty_analysis env) = [lit ''Please enter a password to analyze'']
   \<and> length (recommendations (empty_analysis env)) = 1"
  by (simp add: analyze_empty empty_analysis_def)

text \<open>C7. For the password aaa111 the repeated-character scan reports aaa (and 111) once
  each: a reported triple is consumed, so overlapping triples are not reported again
  (aaaa yields one triple, and in general three times the number of reports is at most
  the length). The sequential check reports nothing for aaa111, and 111 is not a
  sequential triple: every reported triple is three digits or three letters whose code
  points ascend by one.\<close>

theorem aaa111_findings:
  "check_repeated_characters (lit ''aaa111'') = [lit ''aaa'', lit ''111'']
   \<and> check_repeated_characters (lit ''aaaa'') = [lit ''aaa'']
   \<and> 3 * length (check_repeated_characters q) \<le> length q
   \<and> check_sequential_characters (lit ''aaa111'') = Inr []
   \<and> \<not> sequential_run (lit ''111'')
   \<and> (check_sequential_characters p = Inr xs \<longrightarrow> w \<in> set xs \<longrightarrow> sequential_run w)"
proof -
  have "check_repeated_characters (lit ''aaa111'') = [lit ''aaa'', lit ''111'']" by code_simp
  moreover have "check_repeated_characters (lit ''aaaa'') = [lit ''aaa'']" by code_simp
  moreover have "check_sequential_characters (lit ''aaa111'') = Inr []" by code_simp
  moreover have "\<not> sequential_run (lit ''111'')"
    by (simp add: sequential_run_def ascending_run_def lower_def lower_char_def between_def
        ord_def)
  ultimately show ?thesis
    using repeated_triples_disjoint [of q] check_sequential_sound [of p xs w] by blast
qed

theorem aaa111_findings_witness:
  "check_sequential_characters (lit ''abc123'') = Inr [lit ''123'', lit ''abc'']
   \<and> lit ''123'' \<in> set [lit ''123'', lit ''abc''] \<and> sequential_run (lit ''123'')"
proof -
  have e: "check_sequential_characters (lit ''abc123'') = Inr [lit ''123'', lit ''abc'']" by code_simp
  have m: "lit ''123'' \<in> set [lit ''123'', lit ''abc'']" by simp
  from aaa111_findings [of _ "lit ''abc123''" "[lit ''123'', lit ''abc'']" "lit ''123''"] e m
  show ?thesis by blast
qed

text \<open>C8. The recommendations are the messages of the rules that fire, in the fixed rule
  order, followed by the three general tips when the score is below 60, cut to the first
  eight; this holds for the function on every analysis and for the record
  \<open>analyze_password\<close> returns for a non-empty password.\<close>

theorem recommendations_in_rule_order:
  "(character_analysis a = Some ca \<longrightarrow> pattern_analysis a = Some pa \<longrightarrow>
      generate_recommendations p a =
        Inr (take 8 (map snd (filter fst (recommendation_rules (length_field a) ca pa))
                      @ (if strength_score a < 60 then general_tips else []))))
   \<and> (p \<noteq> [] \<longrightarrow> analyze_password env p = Inr r \<longrightarrow>
        (\<exists>ca pa. character_analysis r = Some ca \<and> pattern_analysis r = Some pa
           \<and> recommendations r =
               take 8 (map snd (filter fst (recommendation_rules (length p) ca pa))
                       @ (if strength_score r < 60 then general_tips else []))))
   \<and> length general_tips = 3
   \<and> length (recommendation_rules n ca' pa') = 12"
proof -
  have 1: "character_analysis a = Some ca \<longrightarrow> pattern_analysis a = Some pa \<longrightarrow>
      generate_recommendations p a =
        Inr (take 8 (map snd (filter fst (recommendation_rules (length_field a) ca pa))
                      @ (if strength_score a < 60 then general_tips else [])))"
    using generate_recommendations_eq [of a ca pa p]
    by (simp add: ordered_recommendations_def generated_in_order_def)
  have 2: "p \<noteq> [] \<longrightarrow> analyze_password env p = Inr r \<longrightarrow>
        (\<exists>ca pa. character_analysis r = Some ca \<and> pattern_analysis r = Some pa
           \<and> recommendations r =
               take 8 (map snd (filter fst (recommendation_rules (length p) ca pa))
                       @ (if strength_score r < 60 then general_tips else [])))"
  proof (intro impI)
    assume "p \<noteq> []" and "analyze_password env p = Inr r"
    from analyze_password_Inr [OF this] obtain pa t
      where "r = completed_analysis env p pa t" by blast
    then show "\<exists>ca pa. character_analysis r = Some ca \<and> pattern_analysis r = Some pa
           \<and> recommendations r =
               take 8 (map snd (filter fst (recommendation_rules (length p) ca pa))
                       @ (if strength_score r < 60 then general_tips else []))"
      by (simp add: completed_analysis_def Let_def ordered_recommendations_def
          generated_in_order_def)
  qed
  have 3: "length general_tips = 3" by (simp add: general_tips_def)
  have 4: "length (recommendation_rules n ca' pa') = 12"
    by (simp add: recommendation_rules_def)
  from 1 2 3 4 show ?thesis by blast
qed

theorem recommendations_in_rule_order_witness:
  "\<exists>r ca pa. (lit ''___'') \<noteq> [] \<and> analyze_password clock_2026 (lit ''___'') = Inr r
     \<and> character_analysis r = Some ca \<and> pattern_analysis r = Some pa
     \<and> generate_recommendations (lit ''___'') r =
         Inr (take 8 (map snd (filter fst (recommendation_rules (length_field r) ca pa))
                       @ (if strength_score r < 60 then general_tips else [])))
     \<and> recommendations r =
         take 8 (map snd (filter fst (recommendation_rules (length (lit ''___'')) ca pa))
                 @ (if strength_score r < 60 then general_tips else []))"
proof -
  have "calculate_entropy (lit ''___'') < 1024"
    using underscores_ok by (simp add: outside_entropy)
  with analyze_password_completes [of "lit ''___''" clock_2026] underscores_ok
  obtain pa0 t where r: "analyze_password clock_2026 (lit ''___'') = Inr (completed_analysis clock_2026 (lit ''___'') pa0 t)"
    by blast
  let ?r = "completed_analysis clock_2026 (lit ''___'') pa0 t"
  have ne: "lit ''___'' \<noteq> []" by simp
  from recommendations_in_rule_order [of ?r _ _ "lit ''___''" clock_2026 ?r] r ne
  obtain ca pa where c: "character_analysis ?r = Some ca" "pattern_analysis ?r = Some pa"
    "recommendations ?r =
         take 8 (map snd (filter fst (recommendation_rules (length (lit ''___'')) ca pa))
                 @ (if strength_score ?r < 60 then general_tips else []))"
    by blast
  from recommendations_in_rule_order [of ?r ca pa "lit ''___''"] c
  have "generate_recommendations (lit ''___'') ?r =
         Inr (take 8 (map snd (filter fst (recommendation_rules (length_field ?r) ca pa))
                       @ (if strength_score ?r < 60 then general_tips else [])))"
    by blast
  with r c ne show ?thesis by blast
qed

text \<open>C5 (as amended). For an entropy below 1024 the crack-time text is the bucketing of
  \<open>2 ^ e / (2 * 10 ^ 9)\<close> seconds read from the table of units, each count truncated;
  from 1024 on, the power overflows and the function raises. Every password of at most
  156 characters has an entropy below 1024.\<close>

theorem crack_time_bucketing:
  "(e < 1024 \<longrightarrow> estimate_crack_time e = Inr (bucketed_crack_time e))
   \<and> (1024 \<le> e \<longrightarrow> estimate_crack_time e = Inl OverflowError)
   \<and> (length p \<le> 156 \<longrightarrow> calculate_entropy p < 1024)"
  using estimate_crack_time_eq [of e] estimate_crack_time_overflow [of e] entropy_bound [of p]
  by blast

theorem crack_time_bucketing_witness:
  "(40::real) < 1024 \<and> estimate_crack_time 40 = Inr (bucketed_crack_time 40)
   \<and> bucketed_crack_time 40 = lit ''9 minutes''
   \<and> (1024::real) \<le> 1025 \<and> estimate_crack_time 1025 = Inl OverflowError
   \<and> length (lit ''aaa111'') \<le> 156 \<and> calculate_entropy (lit ''aaa111'') < 1024"
proof -
  have a: "(40::real) < 1024" by simp
  have b: "(1024::real) \<le> 1025" by simp
  have c: "length (lit ''aaa111'') \<le> 156" by simp
  have d: "bucketed_crack_time 40 = lit ''9 minutes''"
    by (simp add: bucketed_crack_time_def seconds_to_crack_def time_units_def truncated_def
        Let_def str_nat.simps)
  from crack_time_bucketing [of 40 "lit ''aaa111''"] crack_time_bucketing [of 1025 "lit ''aaa111''"]
    a b c d
  show ?thesis by blast
qed

theorem crack_time_overflow_counterexample:
  "calculate_entropy (replicate 205 (Latin1 (CHR ''!''))) = 1025
   \<and> estimate_crack_time (calculate_entropy (replicate 205 (Latin1 (CHR ''!''))))
       \<noteq> Inr (bucketed_crack_time (calculate_entropy (replicate 205 (Latin1 (CHR ''!'')))))"
  by (simp add: entropy_specials estimate_crack_time_overflow)

text \<open>C3 (as amended). \<open>analyze_password\<close> returns a record for every password of at most
  156 characters (so for every password within the configured maximum of 100) in which
  each character that \<^verbatim>\<open>str.isdigit\<close> accepts is a decimal digit. A password whose
  entropy reaches 1024 overflows the crack-time power: 205 exclamation marks raise.\<close>

theorem analyze_returns_within_bound:
  "length p \<le> 156 \<Longrightarrow> decimal_digits_only p \<Longrightarrow> \<exists>r. analyze_password env p = Inr r"
proof (cases "p = []")
  case True
  then show ?thesis by (simp add: analyze_empty)
next
  case False
  assume "length p \<le> 156" and "decimal_digits_only p"
  with analyze_password_completes [OF False _ entropy_bound, of env] show ?thesis by blast
qed

theorem analyze_returns_within_bound_witness:
  "length (lit ''aaa111'') \<le> 156 \<and> decimal_digits_only (lit ''aaa111'')
   \<and> MAX_PASSWORD_LENGTH \<le> 156
   \<and> (\<exists>r. analyze_password clock_2026 (lit ''aaa111'') = Inr r)"
proof -
  have a: "length (lit ''aaa111'') \<le> 156" by simp
  have b: "decimal_digits_only (lit ''aaa111'')"
    by (simp add: decimal_digits_only_def isdigit_char_def re_digit_def between_def ord_def)
  have c: "MAX_PASSWORD_LENGTH \<le> 156" by (simp add: MAX_PASSWORD_LENGTH_def)
  from analyze_returns_within_bound [OF a b, of clock_2026] a b c show ?thesis by blast
qed

theorem analyze_overflow_counterexample:
  "analyze_password clock_2026 (replicate 205 (Latin1 (CHR ''!''))) = Inl OverflowError"
proof -
  have d: "decimal_digits_only (replicate 205 (Latin1 (CHR ''!'')))"
    by (simp add: decimal_digits_only_def list_all_iff isdigit_char_def between_def ord_def)
  from analyze_patterns_total [OF d] obtain pa
    where "analyze_patterns (replicate 205 (Latin1 (CHR ''!''))) = Inr pa" ..
  then show ?thesis
    by (simp add: analyze_password_nonempty then_do_def entropy_specials
        estimate_crack_time_overflow)
qed

text \<open>C10 (as amended). Every record that the analysis of a non-empty password returns
  is labelled other than Invalid and carries a character analysis, and for a password
  made only of characters outside the four classes it has no character type, entropy 0
  and crack time Instantly. The analysis completes, with such a record, for every
  password of at most 156 characters, and for every password of any length made only of
  characters outside the four classes, as long as each character that \<^verbatim>\<open>str.isdigit\<close>
  accepts is a decimal digit. Three superscript twos, which are outside the four
  classes, raise.\<close>

theorem nonempty_password_analyzed:
  assumes "p \<noteq> []"
  shows "(\<forall>r. analyze_password env p = Inr r \<longrightarrow>
            strength_label r \<noteq> lit ''Invalid''
            \<and> (\<exists>ca. character_analysis r = Some ca
                  \<and> (outside_classes p \<longrightarrow>
                        character_types ca = 0 \<and> entropy r = 0
                        \<and> time_to_crack r = lit ''Instantly'')))
         \<and> (decimal_digits_only p \<longrightarrow> length p \<le> 156 \<or> outside_classes p \<longrightarrow>
              (\<exists>r ca. analyze_password env p = Inr r \<and> strength_label r \<noteq> lit ''Invalid''
                 \<and> character_analysis r = Some ca
                 \<and> (outside_classes p \<longrightarrow>
                       character_types ca = 0 \<and> entropy r = 0
                       \<and> time_to_crack r = lit ''Instantly'')))"
proof -
  have general: "strength_label r \<noteq> lit ''Invalid''
      \<and> (\<exists>ca. character_analysis r = Some ca
            \<and> (outside_classes p \<longrightarrow>
                  character_types ca = 0 \<and> entropy r = 0 \<and> time_to_crack r = lit ''Instantly''))"
    if r: "analyze_password env p = Inr r" for r
  proof -
    from analyze_password_Inr [OF assms r] obtain pa t
      where t: "estimate_crack_time (calculate_entropy p) = Inr t"
        and c: "r = completed_analysis env p pa t"
      by blast
    have 1: "strength_label r \<noteq> lit ''Invalid''"
      using label_not_invalid by (simp add: c completed_analysis_def Let_def)
    have 2: "character_analysis r = Some (analyze_characters p)"
      by (simp add: c completed_analysis_def Let_def)
    have 3: "outside_classes p \<longrightarrow> character_types (analyze_characters p) = 0
               \<and> entropy r = 0 \<and> time_to_crack r = lit ''Instantly''"
      using t crack_time_zero
      by (auto simp: c completed_analysis_def Let_def outside_types outside_entropy)
    from 1 2 3 show ?thesis by blast
  qed
  have completes: "\<exists>r. analyze_password env p = Inr r"
    if d: "decimal_digits_only p" and b: "length p \<le> 156 \<or> outside_classes p"
  proof -
    have e: "calculate_entropy p < 1024"
      using b entropy_bound [of p] outside_entropy [of p] by auto
    from analyze_password_completes [OF assms d e, of env] show ?thesis by blast
  qed
  from general completes show ?thesis by blast
qed

text \<open>Three underscores are analyzed under the stated conditions; the password 13 followed
  by a superscript two lies outside them and is analyzed as well, since no window of
  three digits reaches the superscript with \<^verbatim>\<open>int\<close>.\<close>

theorem nonempty_password_analyzed_witness:
  "lit ''___'' \<noteq> [] \<and> decimal_digits_only (lit ''___'')
   \<and> (length (lit ''___'') \<le> 156 \<or> outside_classes (lit ''___''))
   \<and> outside_classes (lit ''___'')
   \<and> (\<exists>r ca. analyze_password clock_2026 (lit ''___'') = Inr r
          \<and> strength_label r \<noteq> lit ''Invalid''
          \<and> character_analysis r = Some ca \<and> character_types ca = 0 \<and> entropy r = 0
          \<and> time_to_crack r = lit ''Instantly'')
   \<and> lit ''13'' @ [Latin1 (CHR 0xB2)] \<noteq> []
   \<and> \<not> decimal_digits_only (lit ''13'' @ [Latin1 (CHR 0xB2)])
   \<and> (\<exists>r. analyze_password clock_2026 (lit ''13'' @ [Latin1 (CHR 0xB2)]) = Inr r
          \<and> strength_label r \<noteq> lit ''Invalid'')"
proof -
  have a: "lit ''___'' \<noteq> []" by simp
  have b: "decimal_digits_only (lit ''___'')"
    by (simp add: decimal_digits_only_def isdigit_char_def re_digit_def between_def ord_def)
  have c: "outside_classes (lit ''___'')"
    by (simp add: outside_classes_def re_digit_def re_lower_def re_upper_def re_special_def
        special_chars_def between_def ord_def)
  then have d: "length (lit ''___'') \<le> 156 \<or> outside_classes (lit ''___'')" by blast
  from nonempty_password_analyzed [OF a, of clock_2026] b c d
  have 1: "\<exists>r ca. analyze_password clock_2026 (lit ''___'') = Inr r
          \<and> strength_label r \<noteq> lit ''Invalid''
          \<and> character_analysis r = Some ca \<and> character_types ca = 0 \<and> entropy r = 0
          \<and> time_to_crack r = lit ''Instantly''"
    by blast
  let ?q = "lit ''13'' @ [Latin1 (CHR 0xB2)]"
  have ne: "?q \<noteq> []" by simp
  have nd: "\<not> decimal_digits_only ?q"
    by (simp add: decimal_digits_only_def isdigit_char_def re_digit_def between_def ord_def)
  have "check_sequential_characters ?q = Inr []" by code_simp
  then obtain pa where pa: "analyze_patterns ?q = Inr pa"
    by (simp add: analyze_patterns_def)
  have "calculate_entropy ?q < 1024" by (rule entropy_bound) simp
  from estimate_crack_time_eq [OF this] obtain t
    where t: "estimate_crack_time (calculate_entropy ?q) = Inr t" ..
  from pa t have "\<exists>r. analyze_password clock_2026 ?q = Inr r"
    by (simp add: analyze_password_nonempty then_do_def)
  then obtain r where r: "analyze_password clock_2026 ?q = Inr r" ..
  from nonempty_password_analyzed [OF ne, of clock_2026] r
  have "strength_label r \<noteq> lit ''Invalid''" by blast
  with r have 2: "\<exists>r. analyze_password clock_2026 ?q = Inr r
          \<and> strength_label r \<noteq> lit ''Invalid''"
    by blast
  from a b c d 1 ne nd 2 show ?thesis by blast
qed

theorem superscript_digits_counterexample:
  "[Latin1 (CHR 0xB2), Latin1 (CHR 0xB2), Latin1 (CHR 0xB2)] \<noteq> []
   \<and> outside_classes [Latin1 (CHR 0xB2), Latin1 (CHR 0xB2), Latin1 (CHR 0xB2)]
   \<and> analyze_password clock_2026 [Latin1 (CHR 0xB2), Latin1 (CHR 0xB2), Latin1 (CHR 0xB2)] = Inl ValueError
   \<and> replicate 205 (Latin1 (CHR ''!'')) \<noteq> []
   \<and> (\<forall>r. analyze_password clock_2026 (replicate 205 (Latin1 (CHR ''!''))) \<noteq> Inr r)"
proof -
  have "check_sequential_characters [Latin1 (CHR 0xB2), Latin1 (CHR 0xB2), Latin1 (CHR 0xB2)] = Inl ValueError"
    by code_simp
  then have 1: "analyze_password clock_2026 [Latin1 (CHR 0xB2), Latin1 (CHR 0xB2), Latin1 (CHR 0xB2)] = Inl ValueError"
    by (simp add: analyze_password_nonempty analyze_patterns_def then_do_def)
  have 2: "outside_classes [Latin1 (CHR 0xB2), Latin1 (CHR 0xB2), Latin1 (CHR 0xB2)]"
    by (simp add: outside_classes_def re_digit_def re_lower_def re_upper_def re_special_def
        special_chars_def between_def ord_def)
  have d: "decimal_digits_only (replicate 205 (Latin1 (CHR ''!'')))"
    by (simp add: decimal_digits_only_def list_all_iff isdigit_char_def between_def ord_def)
  from analyze_patterns_total [OF d] obtain pa
    where "analyze_patterns (replicate 205 (Latin1 (CHR ''!''))) = Inr pa" ..
  then have "analyze_password clock_2026 (replicate 205 (Latin1 (CHR ''!''))) = Inl OverflowError"
    by (simp add: analyze_password_nonempty then_do_def entropy_specials
        estimate_crack_time_overflow)
  then have 3: "\<forall>r. analyze_password clock_2026 (replicate 205 (Latin1 (CHR ''!''))) \<noteq> Inr r"
    by simp
  from 1 2 3 show ?thesis by simp
qed

subsection \<open>The generator: auxiliary facts\<close>

text \<open>The case mappings at the characters where they leave U+0000 .. U+00FF or change
  the length, and back.\<close>

lemma case_mappings_outside_latin1:
  "upper [Latin1 (CHR 0xFF)] = [U_0178] \<and> upper [Latin1 (CHR 0xB5)] = [U_039C]
   \<and> upper [Latin1 (CHR 0xDF)] = lit ''SS'' \<and> capitalize [Latin1 (CHR 0xDF)] = lit ''Ss''
   \<and> capitalize [Latin1 (CHR 0xFF), Latin1 (CHR 0xFF)] = [U_0178, Latin1 (CHR 0xFF)]
   \<and> lower [U_0178, U_039C, U_03BC] = [Latin1 (CHR 0xFF), U_03BC, U_03BC]
   \<and> upper [U_0178, U_039C, U_03BC] = [U_0178, U_039C, U_039C]"
  by code_simp

lemma valid_orderD:
  "valid_order order \<Longrightarrow> finite S \<Longrightarrow> set (order S) = S \<and> distinct (order S)"
  by (simp add: valid_order_def)

lemma valid_order_sorted_list: "valid_order sorted_list_of_set"
  by (simp add: valid_order_def)

lemma filter_wordlist_props:
  assumes "valid_order order"
  shows "(\<forall>w\<in>set (filter_wordlist order W). keeps w)
         \<and> distinct (filter_wordlist order W)
         \<and> length (filter_wordlist order W) \<le> MAX_WORDLIST_SIZE"
proof -
  let ?filtered = "filter keeps (order W)"
  let ?unique = "order (set ?filtered)"
  from valid_orderD [OF assms, of "set ?filtered"]
  have u: "set ?unique = set ?filtered" "distinct ?unique" by simp_all
  have k: "\<forall>w\<in>set ?unique. keeps w" using u(1) by simp
  show ?thesis
  proof (cases "length ?unique > MAX_WORDLIST_SIZE")
    case True
    then have "filter_wordlist order W = take MAX_WORDLIST_SIZE ?unique"
      by (simp add: filter_wordlist_def Let_def)
    with k u(2) show ?thesis by (auto dest: in_set_takeD)
  next
    case False
    then have "filter_wordlist order W = ?unique"
      by (simp add: filter_wordlist_def Let_def)
    with k u(2) False show ?thesis by simp
  qed
qed

lemma generate_wordlist_props:
  assumes "valid_order order"
  shows "(\<forall>w\<in>set (generate_wordlist env order inputs y l c v). keeps w)
         \<and> distinct (generate_wordlist env order inputs y l c v)
         \<and> length (generate_wordlist env order inputs y l c v) \<le> MAX_WORDLIST_SIZE
         \<and> sorted (generate_wordlist env order inputs y l c v)"
  using filter_wordlist_props [OF assms]
  by (simp add: generate_wordlist_def Let_def)

lemma finite_leet: "finite W \<Longrightarrow> finite (generate_leet_variations W)"
  by (simp add: generate_leet_variations_def)

lemma finite_build: "finite (build_wordlist env ws y l c v)"
  by (simp add: build_wordlist_def Let_def generate_variations_def finite_leet
      add_year_combinations_def add_common_combinations_def add_common_patterns_def)

lemma years_in_build:
  "add_year_combinations env ws \<subseteq> build_wordlist env ws True l c v"
  by (auto simp: build_wordlist_def Let_def)

lemma filter_wordlist_untruncated:
  assumes "valid_order order" and "finite W" and "card (kept_words W) \<le> MAX_WORDLIST_SIZE"
  shows "filter_wordlist order W = order (kept_words W)"
proof -
  let ?filtered = "filter keeps (order W)"
  have s: "set ?filtered = kept_words W"
    using valid_orderD [OF assms(1,2)] by (auto simp: kept_words_def)
  have "finite (kept_words W)" using assms(2) by (simp add: kept_words_def)
  from valid_orderD [OF assms(1) this]
  have "length (order (kept_words W)) = card (kept_words W)"
    by (metis distinct_card)
  with assms(3) show ?thesis unfolding filter_wordlist_def Let_def s by simp
qed

lemma sort_order_eq:
  assumes "valid_order o1" and "valid_order o2" and "finite S"
  shows "sort (o1 S) = sort (o2 S)"
proof -
  from valid_orderD [OF assms(1,3)] valid_orderD [OF assms(2,3)]
  have "set (sort (o1 S)) = set (sort (o2 S))" "distinct (sort (o1 S))" "distinct (sort (o2 S))"
    by simp_all
  then show ?thesis by (intro sorted_distinct_set_unique) simp_all
qed

lemma split_runs_no_sep:
  "\<forall>c\<in>set cur. \<not> sep c \<Longrightarrow> w \<in> set (split_runs sep cur s) \<Longrightarrow> \<forall>c\<in>set w. \<not> sep c"
proof (induction sep cur s rule: split_runs.induct)
  case (1 sep cur)
  then show ?case by simp
next
  case (2 sep cur c cs)
  show ?case
  proof (cases "sep c")
    case True
    with "2.prems"(2) have "w = cur \<or> w \<in> set (split_runs sep [] (dropWhile sep cs))"
      by simp
    then show ?thesis
    proof
      assume "w = cur"
      with "2.prems"(1) show ?thesis by simp
    next
      assume "w \<in> set (split_runs sep [] (dropWhile sep cs))"
      with "2.IH"(1) [OF True] show ?thesis by simp
    qed
  next
    case False
    with "2.prems"(2) have "w \<in> set (split_runs sep (cur @ [c]) cs)" by simp
    moreover from False "2.prems"(1) have "\<forall>x\<in>set (cur @ [c]). \<not> sep x" by simp
    ultimately show ?thesis using "2.IH"(2) [OF False] by blast
  qed
qed

lemma space_is_separator: "isspace_char c \<Longrightarrow> separator c"
  by (simp add: separator_def)

lemma strip_nonspace: "\<forall>c\<in>set w. \<not> isspace_char c \<Longrightarrow> strip w = w"
proof -
  assume a: "\<forall>c\<in>set w. \<not> isspace_char c"
  then have "dropWhile isspace_char w = w" by (cases w) simp_all
  moreover from a have "dropWhile isspace_char (rev w) = rev w" by (cases "rev w") auto
  ultimately show ?thesis by (simp add: strip_def)
qed

lemma keeps_nonspace:
  "\<forall>c\<in>set w. \<not> isspace_char c \<Longrightarrow> 2 \<le> length w \<Longrightarrow> length w \<le> 50 \<Longrightarrow> keeps w"
  by (cases w) (auto simp: keeps_def strip_nonspace isspace_def)

lemma cleaned_words:
  assumes "valid_order order" and "w \<in> set (clean_inputs order inputs)"
  shows "2 \<le> length w \<and> (\<forall>c\<in>set w. \<not> isspace_char c)"
proof -
  let ?all = "concat (map (\<lambda>input_text.
                        if strip input_text \<noteq> []
                        then filter (\<lambda>cleaned. cleaned \<noteq> [] \<and> length cleaned \<ge> 2)
                               (map strip (re_split (strip input_text)))
                        else [])
                      inputs)"
  from assms(2) have ne: "inputs \<noteq> []" by (auto simp: clean_inputs_def)
  with assms(2) have "w \<in> set (order (set ?all))" by (simp add: clean_inputs_def Let_def)
  with valid_orderD [OF assms(1), of "set ?all"] have "w \<in> set ?all" by simp
  then obtain t x where x: "x \<in> set (re_split (strip t))" and w: "w = strip x" "2 \<le> length w"
    by (auto split: if_splits)
  from split_runs_no_sep [of "[]" separator x "strip t"] x
  have "\<forall>c\<in>set x. \<not> separator c" by (simp add: re_split_def)
  then have n: "\<forall>c\<in>set x. \<not> isspace_char c" using space_is_separator by blast
  with w show ?thesis by (simp add: strip_nonspace)
qed

lemma digit_chars: "\<forall>c\<in>set (lit ''0123456789''). re_digit c"
  by (simp add: re_digit_def between_def ord_def)

lemma str_nat_digits: "\<forall>c\<in>set (str_nat n). re_digit c"
proof (induction n rule: str_nat.induct)
  case (1 n)
  have d: "re_digit (lit ''0123456789'' ! k)" if "k < 10" for k
  proof -
    have "length (lit ''0123456789'') = 10" by simp
    with that have "lit ''0123456789'' ! k \<in> set (lit ''0123456789'')" by (metis nth_mem)
    with digit_chars show ?thesis by blast
  qed
  show ?case
  proof (cases "n < 10")
    case True
    then have "str_nat n = [lit ''0123456789'' ! n]"
      by (simp add: str_nat.simps [of n])
    with d [OF True] show ?thesis by simp
  next
    case False
    then have "str_nat n = str_nat (n div 10) @ [lit ''0123456789'' ! (n mod 10)]"
      by (simp add: str_nat.simps [of n])
    moreover have "n mod 10 < 10" by simp
    ultimately show ?thesis using "1.IH" False d [of "n mod 10"] by simp
  qed
qed

lemma digit_not_space: "re_digit c \<Longrightarrow> \<not> isspace_char c"
  by (auto simp: re_digit_def isspace_char_def between_def)

lemma str_int_nonspace: "\<forall>c\<in>set (str_int i). \<not> isspace_char c"
proof -
  have "\<not> isspace_char (Latin1 (CHR ''-''))" by (simp add: isspace_char_def between_def ord_def)
  then show ?thesis using str_nat_digits digit_not_space by (auto simp: str_int_def)
qed

lemma last2_subset: "set (last2 s) \<subseteq> set s"
  by (simp add: last2_def set_drop_subset)

lemma years_nonspace:
  assumes "year \<in> set (years n)"
  shows "\<forall>c\<in>set year. \<not> isspace_char c"
proof -
  define fixed where "fixed = [lit ''2023'', lit ''2024'', lit ''2025'', lit ''23'', lit ''24'', lit ''25'',
      lit ''1990'', lit ''1995'', lit ''2000'', lit ''2010'', lit ''90'', lit ''95'', lit ''00'', lit ''10'']"
  have "\<forall>c\<in>set (lit ''0123459''). \<not> isspace_char c"
    by (simp add: isspace_char_def between_def ord_def)
  moreover have "\<forall>y\<in>set fixed. set y \<subseteq> set (lit ''0123459'')"
    unfolding fixed_def by simp
  ultimately have f: "\<forall>y\<in>set fixed. \<forall>c\<in>set y. \<not> isspace_char c" by blast
  have y: "years n = [str_int (int n), str_int (int n - 1), str_int (int n + 1),
      last2 (str_int (int n)), last2 (str_int (int n - 1))] @ fixed"
    unfolding fixed_def years_def by simp
  from assms have "year \<in> set [str_int (int n), str_int (int n - 1), str_int (int n + 1),
      last2 (str_int (int n)), last2 (str_int (int n - 1))] \<or> year \<in> set fixed"
    unfolding y by simp
  then consider (whole) i where "year = str_int i" | (short) i where "year = last2 (str_int i)"
    | (old) "year \<in> set fixed"
    by fastforce
  then show ?thesis
  proof cases
    case whole
    then show ?thesis using str_int_nonspace by simp
  next
    case short
    then show ?thesis using str_int_nonspace [of i] last2_subset [of "str_int i"] by blast
  next
    case old
    with f show ?thesis by blast
  qed
qed

lemma year_forms_nonspace:
  assumes "\<forall>c\<in>set word. \<not> isspace_char c" and "\<forall>c\<in>set year. \<not> isspace_char c"
    and "v \<in> set (year_forms word year)"
  shows "\<forall>c\<in>set v. \<not> isspace_char c"
proof -
  have "\<not> isspace_char (Latin1 (CHR ''-''))" "\<not> isspace_char (Latin1 (CHR ''_''))"
    by (simp_all add: isspace_char_def between_def ord_def)
  with assms show ?thesis by (auto simp: year_forms_def)
qed

lemma year_forms_length: "v \<in> set (year_forms word year) \<Longrightarrow> length word \<le> length v"
  by (auto simp: year_forms_def)

lemma year_forms_in_combinations:
  "word \<in> set ws \<Longrightarrow> year \<in> set (years (now_year env)) \<Longrightarrow> v \<in> set (year_forms word year)
   \<Longrightarrow> v \<in> add_year_combinations env ws"
  by (auto simp: add_year_combinations_def Let_def)

lemma valid_rev: "valid_order (\<lambda>S. rev (sorted_list_of_set S))"
  by (simp add: valid_order_def)

lemma build_cong:
  "set ws1 = set ws2 \<Longrightarrow> (y \<longrightarrow> now_year env1 = now_year env2) \<Longrightarrow>
   build_wordlist env1 ws1 y l c v = build_wordlist env2 ws2 y l c v"
  by (simp add: build_wordlist_def Let_def generate_variations_def add_year_combinations_def
      add_common_combinations_def add_common_patterns_def)

lemma clean_set:
  assumes "valid_order o1" and "valid_order o2"
  shows "set (clean_inputs o1 inputs) = set (clean_inputs o2 inputs)"
proof (cases "inputs = []")
  case True
  then show ?thesis by (simp add: clean_inputs_def)
next
  case False
  then show ?thesis
    using valid_orderD [OF assms(1)] valid_orderD [OF assms(2)]
    by (simp add: clean_inputs_def Let_def)
qed

lemma generate_subset_build:
  assumes "valid_order order"
  shows "set (generate_wordlist env order inputs y l c v)
         \<subseteq> build_wordlist env (clean_inputs order inputs) y l c v"
proof -
  let ?W = "build_wordlist env (clean_inputs order inputs) y l c v"
  let ?filtered = "filter keeps (order ?W)"
  have f: "set ?filtered \<subseteq> ?W" using valid_orderD [OF assms finite_build, of env "clean_inputs order inputs" y l c v] by auto
  have u: "set (order (set ?filtered)) = set ?filtered"
    using valid_orderD [OF assms, of "set ?filtered"] by simp
  have "set (filter_wordlist order ?W) \<subseteq> set (order (set ?filtered))"
    by (auto simp: filter_wordlist_def Let_def dest: in_set_takeD)
  with f u have "set (filter_wordlist order ?W) \<subseteq> ?W" by blast
  then show ?thesis by (simp add: generate_wordlist_def Let_def)
qed

lemma generate_untruncated:
  assumes "valid_order order" and "clean_inputs order inputs \<noteq> []"
    and "card (kept_words (build_wordlist env (clean_inputs order inputs) y l c v))
           \<le> MAX_WORDLIST_SIZE"
  shows "generate_wordlist env order inputs y l c v
         = sort (order (kept_words (build_wordlist env (clean_inputs order inputs) y l c v)))"
  using assms(2) filter_wordlist_untruncated [OF assms(1) finite_build assms(3)]
  by (simp add: generate_wordlist_def Let_def)

lemma generate_set_untruncated:
  assumes "valid_order order" and "clean_inputs order inputs \<noteq> []"
    and "card (kept_words (build_wordlist env (clean_inputs order inputs) y l c v))
           \<le> MAX_WORDLIST_SIZE"
  shows "set (generate_wordlist env order inputs y l c v)
         = kept_words (build_wordlist env (clean_inputs order inputs) y l c v)"
proof -
  have "finite (kept_words (build_wordlist env (clean_inputs order inputs) y l c v))"
    using finite_build by (simp add: kept_words_def)
  with valid_orderD [OF assms(1)] show ?thesis
    by (simp add: generate_untruncated [OF assms])
qed

lemma generate_order_independent:
  assumes "valid_order o1" and "valid_order o2" and "y \<longrightarrow> now_year env1 = now_year env2"
    and "card (kept_words (build_wordlist env1 (clean_inputs o1 inputs) y l c v))
           \<le> MAX_WORDLIST_SIZE"
  shows "generate_wordlist env1 o1 inputs y l c v = generate_wordlist env2 o2 inputs y l c v"
proof -
  let ?W1 = "build_wordlist env1 (clean_inputs o1 inputs) y l c v"
  let ?W2 = "build_wordlist env2 (clean_inputs o2 inputs) y l c v"
  have s: "set (clean_inputs o1 inputs) = set (clean_inputs o2 inputs)"
    by (rule clean_set [OF assms(1,2)])
  have W: "?W1 = ?W2" by (rule build_cong [OF s assms(3)])
  show ?thesis
  proof (cases "clean_inputs o1 inputs = []")
    case True
    with s have "clean_inputs o2 inputs = []" by simp
    with True show ?thesis by (simp add: generate_wordlist_def)
  next
    case False
    with s have ne2: "clean_inputs o2 inputs \<noteq> []" by auto
    have fin: "finite (kept_words ?W1)" using finite_build by (simp add: kept_words_def)
    from assms(4) W have c2: "card (kept_words ?W2) \<le> MAX_WORDLIST_SIZE" by simp
    show ?thesis
      unfolding generate_untruncated [OF assms(1) False assms(4)]
        generate_untruncated [OF assms(2) ne2 c2] W [symmetric]
      by (rule sort_order_eq [OF assms(1,2) fin])
  qed
qed

lemma year_form_generated:
  assumes "valid_order order" and "word \<in> set (clean_inputs order inputs)"
    and "year \<in> set (years (now_year env))" and "v \<in> set (year_forms word year)"
    and "length v \<le> 50"
    and "card (kept_words (build_wordlist env (clean_inputs order inputs) True l c va))
           \<le> MAX_WORDLIST_SIZE"
  shows "v \<in> set (generate_wordlist env order inputs True l c va)"
proof -
  from assms(2) have ne: "clean_inputs order inputs \<noteq> []" by auto
  from cleaned_words [OF assms(1,2)]
  have w: "2 \<le> length word" "\<forall>c\<in>set word. \<not> isspace_char c" by simp_all
  have "\<forall>c\<in>set v. \<not> isspace_char c"
    by (rule year_forms_nonspace [OF w(2) years_nonspace [OF assms(3)] assms(4)])
  moreover have "2 \<le> length v" using year_forms_length [OF assms(4)] w(1) by simp
  ultimately have k: "keeps v" using assms(5) by (intro keeps_nonspace)
  have "v \<in> add_year_combinations env (clean_inputs order inputs)"
    by (rule year_forms_in_combinations [OF assms(2,3,4)])
  with years_in_build have "v \<in> build_wordlist env (clean_inputs order inputs) True l c va"
    by blast
  with k show ?thesis
    by (simp add: generate_set_untruncated [OF assms(1) ne assms(6)] kept_words_def)
qed

lemma analyze_env_independent:
  "map_sum id (\<lambda>r. r\<lparr>analysis_timestamp := ts, zxcvbn_analysis := z\<rparr>) (analyze_password env1 p)
   = map_sum id (\<lambda>r. r\<lparr>analysis_timestamp := ts, zxcvbn_analysis := z\<rparr>) (analyze_password env2 p)"
proof (cases "p = []")
  case True
  then show ?thesis by (simp add: analyze_empty empty_analysis_def)
next
  case False
  show ?thesis
    unfolding analyze_password_nonempty [OF False] then_do_def
    by (simp add: completed_analysis_def Let_def split: sum.splits)
qed

lemma analyze_same_env:
  "now_text env1 = now_text env2 \<Longrightarrow> zxcvbn env1 = zxcvbn env2 \<Longrightarrow>
   analyze_password env1 p = analyze_password env2 p"
proof (cases "p = []")
  case True
  assume "now_text env1 = now_text env2"
  with True show ?thesis by (simp add: analyze_empty empty_analysis_def)
next
  case False
  assume "now_text env1 = now_text env2" and "zxcvbn env1 = zxcvbn env2"
  then show ?thesis
    unfolding analyze_password_nonempty [OF False] then_do_def
    by (simp add: completed_analysis_def Let_def zxcvbn_step_def split: sum.splits)
qed

lemma length_concat_le:
  "\<forall>x\<in>set xs. length (f x) \<le> g x \<Longrightarrow> length (concat (map f xs)) \<le> sum_list (map g xs)"
  by (induction xs) (simp_all add: add_mono)

lemma card_stage_le:
  assumes "\<And>w. length (f w) \<le> k"
  shows "card (set (concat (map f ws))) \<le> k * length ws"
proof -
  have "length (concat (map f ws)) \<le> sum_list (map (\<lambda>w. k) ws)"
    by (rule length_concat_le) (simp add: assms)
  also have "\<dots> = k * length ws" by (induction ws) simp_all
  finally show ?thesis using card_length [of "concat (map f ws)"] by linarith
qed

lemma length_variations_of: "length (variations_of w) \<le> 7"
  by (simp add: variations_of_def Let_def)

lemma length_partial_leets: "length (partial_leets w) \<le> 11"
proof -
  have "length (partial_leets w) \<le> sum_list (map (\<lambda>(char, replacements). length replacements)
                                           LEET_REPLACEMENTS)"
    unfolding partial_leets_def
  proof (rule length_concat_le, intro ballI)
    fix x assume "x \<in> set LEET_REPLACEMENTS"
    obtain char replacements where x: "x = (char, replacements)" by (cases x)
    have "length (concat (map (\<lambda>replacement.
                          let partial_leet = replace_first char replacement w
                          in if partial_leet \<noteq> w then [partial_leet] else [])
                        replacements)) \<le> sum_list (map (\<lambda>r. 1) replacements)"
      by (rule length_concat_le) (simp add: Let_def)
    also have "\<dots> = length replacements" by (induction replacements) simp_all
    finally show "length (case x of (char, replacements) \<Rightarrow>
                    concat (map (\<lambda>replacement.
                          let partial_leet = replace_first char replacement w
                          in if partial_leet \<noteq> w then [partial_leet] else [])
                        replacements))
          \<le> (case x of (char, replacements) \<Rightarrow> length replacements)"
      by (simp add: x)
  qed
  also have "\<dots> = 11" by (simp add: LEET_REPLACEMENTS_def)
  finally show ?thesis .
qed

lemma length_leet_of: "length (leet_of w) \<le> 12"
  using length_partial_leets [of w] by (simp add: leet_of_def Let_def)

lemma length_patterns_of: "length (patterns_of w) \<le> 18"
  by (simp add: patterns_of_def common_additions_def)

lemma card_leet_le:
  assumes "finite W"
  shows "card (generate_leet_variations W) \<le> 12 * card W"
proof -
  have "card (\<Union>w\<in>W. set (leet_of w)) \<le> (\<Sum>w\<in>W. card (set (leet_of w)))"
    by (rule card_UN_le [OF assms])
  also have "\<dots> \<le> (\<Sum>w\<in>W. 12)"
  proof (rule sum_mono)
    fix w
    show "card (set (leet_of w)) \<le> 12"
      using length_leet_of [of w] card_length [of "leet_of w"] by linarith
  qed
  finally show ?thesis by (simp add: generate_leet_variations_def mult.commute)
qed

lemma card_build_le: "card (build_wordlist env ws y l c v) \<le> 252 * length ws"
proof -
  define n where "n = length ws"
  define A where "A = set (concat (map base_forms ws))"
  define W1 where "W1 = (if v then A \<union> generate_variations ws else A)"
  define W2 where "W2 = (if l then W1 \<union> generate_leet_variations W1 else W1)"
  define W3 where "W3 = (if y then W2 \<union> add_year_combinations env ws else W2)"
  define W4 where "W4 = W3 \<union> add_common_combinations ws"
  define W5 where "W5 = (if c then W4 \<union> add_common_patterns ws else W4)"
  have b: "build_wordlist env ws y l c v = W5"
    by (simp add: build_wordlist_def Let_def W5_def W4_def W3_def W2_def W1_def A_def)
  have cA: "card A \<le> 4 * n"
    unfolding A_def n_def by (rule card_stage_le) (simp add: base_forms_def)
  have cV: "card (generate_variations ws) \<le> 7 * n"
    unfolding generate_variations_def n_def by (rule card_stage_le) (rule length_variations_of)
  have cY: "card (add_year_combinations env ws) \<le> 76 * n"
    unfolding add_year_combinations_def Let_def n_def
    by (rule card_stage_le) (simp add: years_def year_forms_def)
  have cC: "card (add_common_combinations ws) \<le> 15 * n"
    unfolding add_common_combinations_def n_def
    by (rule card_stage_le) (simp add: suffixes_def prefixes_def)
  have cP: "card (add_common_patterns ws) \<le> 18 * n"
    unfolding add_common_patterns_def n_def by (rule card_stage_le) (rule length_patterns_of)
  have f1: "finite W1" by (simp add: W1_def A_def generate_variations_def)
  have c1: "card W1 \<le> 11 * n"
    using cA cV card_Un_le [of A "generate_variations ws"] by (simp add: W1_def)
  have c2: "card W2 \<le> 143 * n"
    using c1 card_leet_le [OF f1] card_Un_le [of W1 "generate_leet_variations W1"]
    by (simp add: W2_def)
  have c3: "card W3 \<le> 219 * n"
    using c2 cY card_Un_le [of W2 "add_year_combinations env ws"] by (simp add: W3_def)
  have c4: "card W4 \<le> 234 * n"
    using c3 cC card_Un_le [of W3 "add_common_combinations ws"] by (simp add: W4_def)
  have "card W5 \<le> 252 * n"
    using c4 cP card_Un_le [of W4 "add_common_patterns ws"] by (simp add: W5_def)
  then show ?thesis by (simp add: b n_def)
qed

lemma no_truncation:
  assumes "length ws \<le> 39"
  shows "card (kept_words (build_wordlist env ws y l c v)) \<le> MAX_WORDLIST_SIZE"
proof -
  have "card (kept_words (build_wordlist env ws y l c v)) \<le> card (build_wordlist env ws y l c v)"
    by (rule card_mono [OF finite_build]) (auto simp: kept_words_def)
  also have "\<dots> \<le> 252 * length ws" by (rule card_build_le)
  also have "\<dots> \<le> MAX_WORDLIST_SIZE" using assms by (simp add: MAX_WORDLIST_SIZE_def)
  finally show ?thesis .
qed

subsection \<open>The generator: the claims\<close>

text \<open>C2. Whatever the seeds, the flags, the clock and the set iteration order, every
  word of the generated list has between 2 and 50 characters, is unchanged by stripping
  and is not all whitespace; the list has no duplicates, at most 10000 elements, and is
  sorted ascending (strictly, so) in the lexicographic order of code points.\<close>

theorem wordlist_filtered_sorted:
  assumes "valid_order order"
  shows "(\<forall>w\<in>set (generate_wordlist env order inputs y l c v).
            2 \<le> length w \<and> length w \<le> 50 \<and> strip w = w \<and> \<not> isspace w)
         \<and> distinct (generate_wordlist env order inputs y l c v)
         \<and> length (generate_wordlist env order inputs y l c v) \<le> 10000
         \<and> sorted (generate_wordlist env order inputs y l c v)
         \<and> sorted_wrt (<) (generate_wordlist env order inputs y l c v)"
  using generate_wordlist_props [OF assms, of env inputs y l c v]
  by (simp add: keeps_def MAX_WORDLIST_SIZE_def strict_sorted_iff)

theorem wordlist_filtered_sorted_witness:
  "valid_order sorted_list_of_set
   \<and> lit ''cat'' \<in> set (generate_wordlist clock_2026 sorted_list_of_set [lit ''cat''] True True True True)
   \<and> 2 \<le> length (lit ''cat'') \<and> length (lit ''cat'') \<le> 50 \<and> strip (lit ''cat'') = lit ''cat'' \<and> \<not> isspace (lit ''cat'')
   \<and> distinct (generate_wordlist clock_2026 sorted_list_of_set [lit ''cat''] True True True True)
   \<and> length (generate_wordlist clock_2026 sorted_list_of_set [lit ''cat''] True True True True) \<le> 10000
   \<and> sorted (generate_wordlist clock_2026 sorted_list_of_set [lit ''cat''] True True True True)"
proof -
  have c: "clean_inputs sorted_list_of_set [lit ''cat''] = [lit ''cat'']" by code_simp
  have k: "lit ''cat'' \<in> kept_words (build_wordlist clock_2026 [lit ''cat''] True True True True)"
    by code_simp
  have n: "card (kept_words (build_wordlist clock_2026
             (clean_inputs sorted_list_of_set [lit ''cat'']) True True True True))
           \<le> MAX_WORDLIST_SIZE"
    by (rule no_truncation) (use c in simp)
  have m: "lit ''cat'' \<in> set (generate_wordlist clock_2026 sorted_list_of_set [lit ''cat'']
                             True True True True)"
    using generate_set_untruncated [OF valid_order_sorted_list _ n] k c by simp
  from wordlist_filtered_sorted [OF valid_order_sorted_list, of clock_2026 "[lit ''cat'']"
      True True True True] m valid_order_sorted_list
  show ?thesis by blast
qed




text \<open>C9 (as amended). The result of \<open>analyze_password\<close> depends on the environment only
  in its timestamp and in the attached estimator result: with the same clock text and
  the same estimator two calls return the same record. The result of
  \<open>generate_wordlist\<close> is the same for any two set iteration orders and any two clocks
  that agree on the year (or with the year stage off), as long as the size cap does not
  cut the list. The engines do read the clock: another year gives another wordlist and
  another clock text another analysis record.\<close>

theorem results_determined_by_inputs_and_clock:
  "map_sum id (\<lambda>r. r\<lparr>analysis_timestamp := ts, zxcvbn_analysis := z\<rparr>) (analyze_password env1 p)
     = map_sum id (\<lambda>r. r\<lparr>analysis_timestamp := ts, zxcvbn_analysis := z\<rparr>)
         (analyze_password env2 p)
   \<and> (now_text env1 = now_text env2 \<longrightarrow> zxcvbn env1 = zxcvbn env2 \<longrightarrow>
        analyze_password env1 p = analyze_password env2 p)
   \<and> (valid_order o1 \<longrightarrow> valid_order o2 \<longrightarrow> (y \<longrightarrow> now_year env1 = now_year env2) \<longrightarrow>
        card (kept_words (build_wordlist env1 (clean_inputs o1 inputs) y l c v))
          \<le> MAX_WORDLIST_SIZE \<longrightarrow>
        generate_wordlist env1 o1 inputs y l c v = generate_wordlist env2 o2 inputs y l c v)"
  using analyze_env_independent [where ts = ts and z = z and ?env1.0 = env1 and p = p
      and ?env2.0 = env2]
    analyze_same_env [where ?env1.0 = env1 and ?env2.0 = env2 and p = p]
    generate_order_independent [where ?o1.0 = o1 and ?o2.0 = o2 and y = y and ?env1.0 = env1
      and ?env2.0 = env2 and inputs = inputs and l = l and c = c and v = v]
  by blast

theorem results_determined_by_inputs_and_clock_witness:
  "now_text clock_2026 = now_text (clock_2026 \<lparr> now_year := 2031 \<rparr>)
   \<and> zxcvbn clock_2026 = zxcvbn (clock_2026 \<lparr> now_year := 2031 \<rparr>)
   \<and> analyze_password clock_2026 (lit ''aaa111'')
       = analyze_password (clock_2026 \<lparr> now_year := 2031 \<rparr>) (lit ''aaa111'')
   \<and> valid_order sorted_list_of_set \<and> valid_order (\<lambda>S. rev (sorted_list_of_set S))
   \<and> card (kept_words (build_wordlist clock_2026 (clean_inputs sorted_list_of_set [lit ''ab''])
              False True True True)) \<le> MAX_WORDLIST_SIZE
   \<and> generate_wordlist clock_2026 sorted_list_of_set [lit ''ab''] False True True True
       = generate_wordlist (clock_2026 \<lparr> now_year := 2031 \<rparr>) (\<lambda>S. rev (sorted_list_of_set S))
           [lit ''ab''] False True True True"
proof -
  have c: "clean_inputs sorted_list_of_set [lit ''ab''] = [lit ''ab'']" by code_simp
  have 1: "now_text clock_2026 = now_text (clock_2026 \<lparr> now_year := 2031 \<rparr>)" by simp
  have 2: "zxcvbn clock_2026 = zxcvbn (clock_2026 \<lparr> now_year := 2031 \<rparr>)" by simp
  have 3: "card (kept_words (build_wordlist clock_2026 (clean_inputs sorted_list_of_set [lit ''ab''])
              False True True True)) \<le> MAX_WORDLIST_SIZE"
    by (rule no_truncation) (use c in simp)
  have 4: "False \<longrightarrow> now_year clock_2026 = now_year (clock_2026 \<lparr> now_year := 2031 \<rparr>)" by simp
  from results_determined_by_inputs_and_clock [where ?env1.0 = clock_2026
      and p = "lit ''aaa111''" and ?env2.0 = "clock_2026 \<lparr> now_year := 2031 \<rparr>"
      and ?o1.0 = sorted_list_of_set and ?o2.0 = "\<lambda>S. rev (sorted_list_of_set S)"
      and y = False and inputs = "[lit ''ab'']" and l = True and c = True and v = True]
    1 2 3 4 valid_order_sorted_list valid_rev
  show ?thesis by blast
qed

theorem clock_dependence_counterexample:
  "generate_wordlist clock_2026 sorted_list_of_set [lit ''ab''] True False False False
     \<noteq> generate_wordlist (clock_2026 \<lparr> now_year := 2031 \<rparr>) sorted_list_of_set [lit ''ab'']
         True False False False
   \<and> analyze_password clock_2026 (lit ''aaa111'')
       \<noteq> analyze_password (clock_2026 \<lparr> now_text := lit ''2031-01-01 00:00:00'' \<rparr>) (lit ''aaa111'')"
proof -
  let ?later = "clock_2026 \<lparr> now_year := 2031 \<rparr>"
  have c: "clean_inputs sorted_list_of_set [lit ''ab''] = [lit ''ab'']" by code_simp
  have y: "lit ''2031'' \<in> set (years (now_year ?later))" by code_simp
  have n: "card (kept_words (build_wordlist ?later (clean_inputs sorted_list_of_set [lit ''ab''])
             True False False False)) \<le> MAX_WORDLIST_SIZE"
    by (rule no_truncation) (use c in simp)
  have "lit ''ab2031'' \<in> set (generate_wordlist ?later sorted_list_of_set [lit ''ab'']
                            True False False False)"
    by (rule year_form_generated [OF valid_order_sorted_list _ y _ _ n, of "lit ''ab''"])
       (use c in \<open>simp_all add: year_forms_def\<close>)
  moreover have "lit ''ab2031'' \<notin> build_wordlist clock_2026 [lit ''ab''] True False False False"
    by code_simp
  with generate_subset_build [OF valid_order_sorted_list, of clock_2026 "[lit ''ab'']"
      True False False False]
  have "lit ''ab2031'' \<notin> set (generate_wordlist clock_2026 sorted_list_of_set [lit ''ab'']
                            True False False False)"
    using c by auto
  ultimately have 1: "generate_wordlist clock_2026 sorted_list_of_set [lit ''ab'']
        True False False False
     \<noteq> generate_wordlist ?later sorted_list_of_set [lit ''ab''] True False False False"
    by metis
  let ?other = "clock_2026 \<lparr> now_text := lit ''2031-01-01 00:00:00'' \<rparr>"
  have ne: "lit ''aaa111'' \<noteq> []" by simp
  have d: "decimal_digits_only (lit ''aaa111'')"
    by (simp add: decimal_digits_only_def isdigit_char_def re_digit_def between_def ord_def)
  have e: "calculate_entropy (lit ''aaa111'') < 1024" by (rule entropy_bound) simp
  from analyze_password_completes [OF ne d e, of clock_2026] obtain pa t
    where a1: "analyze_password clock_2026 (lit ''aaa111'')
                = Inr (completed_analysis clock_2026 (lit ''aaa111'') pa t)"
    by blast
  from analyze_password_completes [OF ne d e, of ?other] obtain pa' t'
    where a2: "analyze_password ?other (lit ''aaa111'')
                = Inr (completed_analysis ?other (lit ''aaa111'') pa' t')"
    by blast
  have "analysis_timestamp (completed_analysis clock_2026 (lit ''aaa111'') pa t)
        \<noteq> analysis_timestamp (completed_analysis ?other (lit ''aaa111'') pa' t')"
    by (simp add: completed_analysis_def Let_def clock_2026_def)
  then have 2: "analyze_password clock_2026 (lit ''aaa111'') \<noteq> analyze_password ?other (lit ''aaa111'')"
    unfolding a1 a2 by auto
  from 1 2 show ?thesis by simp
qed

end
